theory Spec2Isabelle
  imports Complex_Main
begin

section \<open>Data model\<close>

text \<open>
  The kernels of \<^verbatim>\<open>pres.cxx\<close>, \<^verbatim>\<open>pres_4.cxx\<close> and \<^verbatim>\<open>force.cxx\<close> work on raw
  \<^verbatim>\<open>double*\<close> buffers indexed by an \<^verbatim>\<open>int\<close> offset. A buffer is modelled as a store
  from offsets to values; \<^verbatim>\<open>p[ijk] = x\<close> is the store update \<open>p(ijk := x)\<close>. The C++
  code performs no bounds check, and neither does the model: which offsets belong to the
  allocation is a matter of the grid layout, stated as \<open>grid_ok\<close> where a property needs it.
  A \<^verbatim>\<open>double\<close> is modelled as a real number, so every statement below is about exact
  arithmetic; rounding is not modelled. An \<^verbatim>\<open>int\<close> that is an offset into a buffer or a
  loop counter is modelled as an unbounded integer (the offsets of a block that fits in
  memory stay far from the 32-bit range). The one product of \<^verbatim>\<open>int\<close>s that is not an
  offset, the number \<^verbatim>\<open>itot*jtot\<close> of columns of the whole domain in \<^verbatim>\<open>Force::calcFlux\<close>,
  is computed as the machine does, with wrap-around to 32 bits.
\<close>

type_synonym array = "int \<Rightarrow> real"

text \<open>
  The members of the grid object that the kernels read. The three vertical metric
  arrays carry the prefix \<open>grid_\<close> because the kernels receive them again as parameters
  named \<^verbatim>\<open>dz\<close>, \<^verbatim>\<open>dzi\<close> and \<^verbatim>\<open>dzhi\<close>.
\<close>

record grid =
  itot :: int
  jtot :: int
  ktot :: int
  imax :: int
  jmax :: int
  kmax :: int
  iblock :: int
  jblock :: int
  igc :: int
  jgc :: int
  kgc :: int
  icells :: int
  jcells :: int
  kcells :: int
  ijcells :: int
  ncells :: int
  istart :: int
  iend :: int
  jstart :: int
  jend :: int
  kstart :: int
  kend :: int
  dx :: real
  dy :: real
  zsize :: real
  utrans :: real
  vtrans :: real
  grid_dz :: array
  grid_dzi :: array
  grid_dzhi :: array
  swspatialorder :: string

text \<open>
  The layout every kernel relies on: the interior \<open>[istart,iend) \<times> [jstart,jend) \<times>
  [kstart,kend)\<close> lies inside a block of \<open>icells \<times> jcells \<times> kcells\<close> cells stored with
  strides \<open>1\<close>, \<open>icells\<close> and \<open>ijcells = icells * jcells\<close>, and \<open>ncells\<close> is the size of
  the block.
\<close>

definition grid_ok :: "grid \<Rightarrow> bool" where
  "grid_ok g \<longleftrightarrow>
     0 \<le> istart g \<and> iend g \<le> icells g \<and>
     0 \<le> jstart g \<and> jend g \<le> jcells g \<and>
     0 \<le> kstart g \<and> kend g \<le> kcells g \<and>
     ijcells g = icells g * jcells g \<and>
     ncells g = ijcells g * kcells g"

text \<open>
  The product of two \<^verbatim>\<open>int\<close>s as a 32-bit machine computes it: the product reduced
  modulo \<open>2\<^sup>3\<^sup>2\<close> into the range from \<open>- 2\<^sup>3\<^sup>1\<close> to \<open>2\<^sup>3\<^sup>1 - 1\<close>.
\<close>

definition int32_mul :: "int \<Rightarrow> int \<Rightarrow> int" where
  "int32_mul x y = (x * y + 2147483648) mod 4294967296 - 2147483648"

text \<open>The values a loop \<^verbatim>\<open>for (int x = lo; x < hi; ++x)\<close> runs through, in order.\<close>

definition loop_range :: "int \<Rightarrow> int \<Rightarrow> int list" where
  "loop_range lo hi = [lo..hi - 1]"

section \<open>Second-order pressure solver (pres.cxx)\<close>

text \<open>
  \<^verbatim>\<open>cpres::pres_2nd_in\<close>: the right-hand side of the Poisson equation, written to \<open>p\<close> at
  every interior cell.
\<close>

definition pres_2nd_in ::
  "grid \<Rightarrow> array \<Rightarrow> array \<Rightarrow> array \<Rightarrow> array \<Rightarrow> array \<Rightarrow> array \<Rightarrow> array \<Rightarrow> array \<Rightarrow> real \<Rightarrow> array"
where
  "pres_2nd_in g p u v w ut vt wt dzi dt =
    (let ii = 1; jj = icells g; kk = icells g * jcells g;
         dxi = 1 / dx g; dyi = 1 / dy g
     in fold (\<lambda>k. fold (\<lambda>j. fold (\<lambda>i p.
          let ijk = i + j * jj + k * kk
          in p(ijk := ((ut (ijk + ii) + u (ijk + ii) / dt) - (ut ijk + u ijk / dt)) * dxi
                    + ((vt (ijk + jj) + v (ijk + jj) / dt) - (vt ijk + v ijk / dt)) * dyi
                    + ((wt (ijk + kk) + w (ijk + kk) / dt) - (wt ijk + w ijk / dt)) * dzi k))
          (loop_range (istart g) (iend g)))
          (loop_range (jstart g) (jend g)))
          (loop_range (kstart g) (kend g)) p)"

text \<open>
  \<^verbatim>\<open>cpres::pres_2nd_out\<close>: the projection. The state of the loop is the three
  tendency buffers; \<open>p\<close> and \<open>dzhi\<close> are only read.
\<close>

definition pres_2nd_out ::
  "grid \<Rightarrow> array \<times> array \<times> array \<Rightarrow> array \<Rightarrow> array \<Rightarrow> array \<times> array \<times> array"
where
  "pres_2nd_out g tend p dzhi =
    (let ii = 1; jj = icells g; kk = icells g * jcells g;
         dxi = 1 / dx g; dyi = 1 / dy g
     in fold (\<lambda>k. fold (\<lambda>j. fold (\<lambda>i (ut, vt, wt).
          let ijk = i + j * jj + k * kk
          in (ut(ijk := ut ijk - (p ijk - p (ijk - ii)) * dxi),
              vt(ijk := vt ijk - (p ijk - p (ijk - jj)) * dyi),
              wt(ijk := wt ijk - (p ijk - p (ijk - kk)) * dzhi k)))
          (loop_range (istart g) (iend g)))
          (loop_range (jstart g) (jend g)))
          (loop_range (kstart g) (kend g)) tend)"

text \<open>
  \<^verbatim>\<open>cpres::tdma\<close>, the Thomas algorithm. The forward sweep carries \<^verbatim>\<open>tmp\<close>, \<^verbatim>\<open>xout\<close>
  and the workspace \<^verbatim>\<open>gam\<close>; the backward sweep runs \<open>k\<close> from \<open>sz - 2\<close> down to \<open>0\<close>
  (\<open>sz\<close> is the parameter \<^verbatim>\<open>size\<close>).
  The function returns the two buffers it writes, \<^verbatim>\<open>xout\<close> and \<^verbatim>\<open>gam\<close>.
\<close>

definition tdma_forward ::
  "array \<Rightarrow> array \<Rightarrow> array \<Rightarrow> array \<Rightarrow> int \<Rightarrow> real \<times> array \<times> array \<Rightarrow> real \<times> array \<times> array"
where
  "tdma_forward a b c xin k = (\<lambda>(tmp, xout, gam).
     let gam = gam(k := c (k - 1) / tmp);
         tmp = b k - a k * gam k;
         xout = xout(k := (xin k - a k * xout (k - 1)) / tmp)
     in (tmp, xout, gam))"

definition tdma_backward :: "array \<Rightarrow> int \<Rightarrow> array \<Rightarrow> array" where
  "tdma_backward gam k xout = xout(k := xout k - gam (k + 1) * xout (k + 1))"

definition tdma ::
  "array \<Rightarrow> array \<Rightarrow> array \<Rightarrow> array \<Rightarrow> array \<Rightarrow> array \<Rightarrow> int \<Rightarrow> array \<times> array"
where
  "tdma a b c xin xout gam sz =
    (let tmp = b 0;
         xout = xout(0 := xin 0 / tmp);
         (tmp, xout, gam) = fold (tdma_forward a b c xin) (loop_range 1 sz) (tmp, xout, gam);
         xout = fold (tdma_backward gam) (rev (loop_range 0 (sz - 1))) xout
     in (xout, gam))"

text \<open>
  \<^verbatim>\<open>cpres::pres_2nd_init\<close> fills the members \<open>a\<close> and \<open>c\<close> in its last loop (the
  modified wave numbers \<open>bmati\<close>, \<open>bmatj\<close> and the FFT plans it also creates are taken as
  given).
\<close>

definition pres_2nd_init_ac :: "grid \<Rightarrow> array \<times> array \<Rightarrow> array \<times> array" where
  "pres_2nd_init_ac g ac =
     fold (\<lambda>k (a, c).
        (a(k := grid_dz g (k + kgc g) * grid_dzhi g (k + kgc g)),
         c(k := grid_dz g (k + kgc g) * grid_dzhi g (k + kgc g + 1))))
       (loop_range 0 (ktot g)) ac"

text \<open>
  The body of the loop over \<open>(j, i)\<close> in \<^verbatim>\<open>cpres::pres_2nd_solve\<close>, in its three steps:
  \<open>pres_2nd_solve_matrix\<close> builds \<open>b\<close> and \<open>xin\<close> and substitutes the boundary conditions,
  \<open>tdma\<close> solves, and the last loop copies \<open>xout\<close> back into \<open>p\<close>. In this source
  \<open>iindex = i\<close> and \<open>jindex = j\<close>. The Fourier transforms before and after the loop
  are calls into the FFT library and are not part of the model.
\<close>

definition pres_2nd_solve_matrix ::
  "grid \<Rightarrow> array \<Rightarrow> array \<Rightarrow> array \<Rightarrow> array \<Rightarrow> array \<Rightarrow> array \<Rightarrow> int \<Rightarrow> int \<Rightarrow>
   array \<times> array \<Rightarrow> array \<times> array"
where
  "pres_2nd_solve_matrix g p dz a c bmati bmatj i j bx =
    (let jj = icells g; kk = icells g * jcells g;
         iindex = i; jindex = j;
         (b, xin) = fold (\<lambda>k (b, xin).
            let ijk = i + igc g + (j + jgc g) * jj + (k + kgc g) * kk
            in (b(k := dz (k + kgc g) * dz (k + kgc g) * (bmati iindex + bmatj jindex) - (a k + c k)),
                xin(k := dz (k + kgc g) * dz (k + kgc g) * p ijk)))
           (loop_range 0 (ktot g)) bx;
         b = b(0 := b 0 + a 0);
         b = (if iindex = 0 \<and> jindex = 0
              then b(ktot g - 1 := b (ktot g - 1) - c (ktot g - 1))
              else b(ktot g - 1 := b (ktot g - 1) + c (ktot g - 1)))
     in (b, xin))"

text \<open>The members of the solver object that the column solve reads and writes.\<close>

record cpres =
  pres_a :: array
  pres_b :: array
  pres_c :: array
  pres_d :: array
  pres_xin :: array
  pres_xout :: array
  pres_bmati :: array
  pres_bmatj :: array

definition pres_2nd_solve_column ::
  "grid \<Rightarrow> array \<Rightarrow> int \<Rightarrow> int \<Rightarrow> cpres \<times> array \<Rightarrow> cpres \<times> array"
where
  "pres_2nd_solve_column g dz i j = (\<lambda>(s, p).
    (let jj = icells g; kk = icells g * jcells g;
         (b, xin) = pres_2nd_solve_matrix g p dz (pres_a s) (pres_c s) (pres_bmati s) (pres_bmatj s) i j
                      (pres_b s, pres_xin s);
         (xout, d) = tdma (pres_a s) b (pres_c s) xin (pres_xout s) (pres_d s) (ktot g);
         p = fold (\<lambda>k p. p(i + igc g + (j + jgc g) * jj + (k + kgc g) * kk := xout k))
               (loop_range 0 (ktot g)) p
     in (s\<lparr>pres_b := b, pres_xin := xin, pres_xout := xout, pres_d := d\<rparr>, p)))"

definition pres_2nd_solve_columns :: "grid \<Rightarrow> array \<Rightarrow> cpres \<times> array \<Rightarrow> cpres \<times> array" where
  "pres_2nd_solve_columns g dz sp =
     fold (\<lambda>j. fold (\<lambda>i. pres_2nd_solve_column g dz i j) (loop_range 0 (imax g)))
       (loop_range 0 (jmax g)) sp"

text \<open>
  The state in which the loop over \<open>(j, i)\<close> reaches the column \<open>(i, j)\<close>: the columns
  before it, in the order of the loop, have been solved.
\<close>

definition pres_2nd_solve_before ::
  "grid \<Rightarrow> array \<Rightarrow> int \<Rightarrow> int \<Rightarrow> cpres \<times> array \<Rightarrow> cpres \<times> array"
where
  "pres_2nd_solve_before g dz i j sp =
     fold (\<lambda>(j', i'). pres_2nd_solve_column g dz i' j')
       (takeWhile (\<lambda>c. c \<noteq> (j, i)) (List.product (loop_range 0 (jmax g)) (loop_range 0 (imax g))))
       sp"

section \<open>Forcing (force.cxx)\<close>

text \<open>
  A \<^verbatim>\<open>Field3d\<close> with the two buffers the forcing reads and writes, the field maps
  \<^verbatim>\<open>std::map<std::string, Field3d*>\<close> as association lists in key order, and the members
  of \<^verbatim>\<open>Fields\<close> and \<^verbatim>\<open>Force\<close>. The members \<^verbatim>\<open>ug\<close>, \<^verbatim>\<open>vg\<close> and \<^verbatim>\<open>wls\<close> carry the
  prefix \<open>force_\<close>, and the members of \<^verbatim>\<open>Fields\<close> the prefix \<open>fields_\<close>, because the
  kernels have parameters of the same names.
\<close>

record field3d =
  data :: array
  datamean :: array

type_synonym fieldmap = "(string \<times> field3d) list"

record fields =
  fields_u :: field3d
  fields_v :: field3d
  fields_w :: field3d
  fields_ut :: field3d
  fields_vt :: field3d
  fields_wt :: field3d
  fields_st :: fieldmap
  fields_sp :: fieldmap

record force =
  swlspres :: string
  swls :: string
  swwls :: string
  swtimedep :: string
  uflux :: real
  fc :: real
  force_ug :: array
  force_vg :: array
  force_wls :: array
  lslist :: "string list"
  timedeplist :: "string list"
  lsprofs :: "string \<rightharpoonup> array"
  timedepdata :: "string \<rightharpoonup> array"
  timedeptime :: "real list"

text \<open>
  The interpolation coefficients \<^verbatim>\<open>ci0 .. ci3\<close> of the fourth-order scheme come from
  \<^verbatim>\<open>fd.h\<close>, which is not among the sources; they are a parameter of the model.
\<close>

record fd_o4 =
  ci0 :: real
  ci1 :: real
  ci2 :: real
  ci3 :: real

text \<open>
  Modelled from the spec: \<^verbatim>\<open>grid->getSum\<close> is not among the sources. The spec calls it a
  collective sum reduction: every rank contributes its local value and receives the sum
  over all ranks. \<open>others\<close> are the values held by the other ranks (empty in a run on
  one rank).
\<close>

definition getSum :: "real list \<Rightarrow> real \<Rightarrow> real" where
  "getSum others x = sum_list (x # others)"

text \<open>
  \<^verbatim>\<open>Force::calcFlux\<close>, in its three parts. \<open>calcFlux_sums\<close> is the loop nest over the
  interior that accumulates the local sums \<^verbatim>\<open>(uavg, utavg)\<close>; \<open>calcFlux_fbody\<close> is the
  function up to the assignment of \<^verbatim>\<open>fbody\<close>: the local sums, the two reductions, the
  division by \<^verbatim>\<open>grid->itot*grid->jtot*grid->zsize\<close> (a product of two \<^verbatim>\<open>int\<close>s, converted
  to \<^verbatim>\<open>double\<close> for the product with \<^verbatim>\<open>zsize\<close>) and the controller formula; \<open>calcFlux\<close> is
  the whole function and returns the buffer \<^verbatim>\<open>ut\<close> it writes.
\<close>

definition calcFlux_sums :: "grid \<Rightarrow> array \<Rightarrow> array \<Rightarrow> array \<Rightarrow> real \<times> real" where
  "calcFlux_sums g ut u dz =
    (let jj = icells g; kk = ijcells g;
         uavg = 0; utavg = 0
     in fold (\<lambda>k. fold (\<lambda>j. fold (\<lambda>i (uavg, utavg).
            let ijk = i + j * jj + k * kk
            in (uavg + u ijk * dz k, utavg + ut ijk * dz k))
            (loop_range (istart g) (iend g)))
            (loop_range (jstart g) (jend g)))
            (loop_range (kstart g) (kend g)) (uavg, utavg))"

definition calcFlux_fbody ::
  "grid \<Rightarrow> force \<Rightarrow> real list \<Rightarrow> real list \<Rightarrow> array \<Rightarrow> array \<Rightarrow> array \<Rightarrow> real \<Rightarrow> real"
where
  "calcFlux_fbody g F others_u others_ut ut u dz dt =
    (let ugrid = utrans g;
         (uavg, utavg) = calcFlux_sums g ut u dz;
         uavg = getSum others_u uavg;
         utavg = getSum others_ut utavg;
         uavg = uavg / (of_int (int32_mul (itot g) (jtot g)) * zsize g);
         utavg = utavg / (of_int (int32_mul (itot g) (jtot g)) * zsize g)
     in (uflux F - uavg - ugrid) / dt - utavg)"

definition calcFlux ::
  "grid \<Rightarrow> force \<Rightarrow> real list \<Rightarrow> real list \<Rightarrow> array \<Rightarrow> array \<Rightarrow> array \<Rightarrow> real \<Rightarrow> array"
where
  "calcFlux g F others_u others_ut ut u dz dt =
    (let fbody = calcFlux_fbody g F others_u others_ut ut u dz dt
     in fold (\<lambda>n ut. ut(n := ut n + fbody)) (loop_range 0 (ncells g)) ut)"

text \<open>
  The quantity the spec writes \<open>\<langle>f\<rangle>\<close>: the \<open>dz\<close>-weighted sum of a field over the interior,
  divided by \<open>itot * jtot * zsize\<close>. The interior of the whole domain is the interiors of
  the blocks of all ranks together, so \<open>bulk_mean\<close> takes the buffer of the field on every
  rank (one buffer in a run on one rank). These two definitions follow the words of the
  spec; the theorems compare them with what \<open>calcFlux\<close> computes.
\<close>

definition interior_sum :: "grid \<Rightarrow> array \<Rightarrow> array \<Rightarrow> real" where
  "interior_sum g f dz =
     (\<Sum>k = kstart g..<kend g. \<Sum>j = jstart g..<jend g. \<Sum>i = istart g..<iend g.
         f (i + j * icells g + k * ijcells g) * dz k)"


text \<open>\<^verbatim>\<open>Force::calcCoriolis_2nd\<close> and \<^verbatim>\<open>Force::calcCoriolis_4th\<close>; they return \<open>(ut, vt)\<close>.\<close>

definition calcCoriolis_2nd ::
  "grid \<Rightarrow> force \<Rightarrow> array \<times> array \<Rightarrow> array \<Rightarrow> array \<Rightarrow> array \<Rightarrow> array \<Rightarrow> array \<times> array"
where
  "calcCoriolis_2nd g F tend u v ug vg =
    (let ii = 1; jj = icells g; kk = ijcells g;
         ugrid = utrans g; vgrid = vtrans g;
         (ut, vt) = tend;
         ut = fold (\<lambda>k. fold (\<lambda>j. fold (\<lambda>i ut.
            let ijk = i + j * jj + k * kk
            in ut(ijk := ut ijk + fc F * (0.25 * (v (ijk - ii) + v ijk + v (ijk - ii + jj) + v (ijk + jj))
                                          + vgrid - vg k)))
            (loop_range (istart g) (iend g)))
            (loop_range (jstart g) (jend g)))
            (loop_range (kstart g) (kend g)) ut;
         vt = fold (\<lambda>k. fold (\<lambda>j. fold (\<lambda>i vt.
            let ijk = i + j * jj + k * kk
            in vt(ijk := vt ijk - fc F * (0.25 * (u (ijk - jj) + u ijk + u (ijk + ii - jj) + u (ijk + ii))
                                          + ugrid - ug k)))
            (loop_range (istart g) (iend g)))
            (loop_range (jstart g) (jend g)))
            (loop_range (kstart g) (kend g)) vt
     in (ut, vt))"

definition calcCoriolis_4th ::
  "grid \<Rightarrow> fd_o4 \<Rightarrow> force \<Rightarrow> array \<times> array \<Rightarrow> array \<Rightarrow> array \<Rightarrow> array \<Rightarrow> array \<Rightarrow> array \<times> array"
where
  "calcCoriolis_4th g O4 F tend u v ug vg =
    (let ii1 = 1; ii2 = 2; jj1 = 1 * icells g; jj2 = 2 * icells g; kk1 = 1 * ijcells g;
         ugrid = utrans g; vgrid = vtrans g;
         (ut, vt) = tend;
         ut = fold (\<lambda>k. fold (\<lambda>j. fold (\<lambda>i ut.
            let ijk = i + j * jj1 + k * kk1
            in ut(ijk := ut ijk + fc F *
                 ( ( ci0 O4 * (ci0 O4 * v (ijk - ii2 - jj1) + ci1 O4 * v (ijk - ii1 - jj1) + ci2 O4 * v (ijk - jj1) + ci3 O4 * v (ijk + ii1 - jj1))
                   + ci1 O4 * (ci0 O4 * v (ijk - ii2) + ci1 O4 * v (ijk - ii1) + ci2 O4 * v ijk + ci3 O4 * v (ijk + ii1))
                   + ci2 O4 * (ci0 O4 * v (ijk - ii2 + jj1) + ci1 O4 * v (ijk - ii1 + jj1) + ci2 O4 * v (ijk + jj1) + ci3 O4 * v (ijk + ii1 + jj1))
                   + ci3 O4 * (ci0 O4 * v (ijk - ii2 + jj2) + ci1 O4 * v (ijk - ii1 + jj2) + ci2 O4 * v (ijk + jj2) + ci3 O4 * v (ijk + ii1 + jj2)) )
                 + vgrid - vg k)))
            (loop_range (istart g) (iend g)))
            (loop_range (jstart g) (jend g)))
            (loop_range (kstart g) (kend g)) ut;
         vt = fold (\<lambda>k. fold (\<lambda>j. fold (\<lambda>i vt.
            let ijk = i + j * jj1 + k * kk1
            in vt(ijk := vt ijk - fc F *
                 ( ( ci0 O4 * (ci0 O4 * u (ijk - ii1 - jj2) + ci1 O4 * u (ijk - jj2) + ci2 O4 * u (ijk + ii1 - jj2) + ci3 O4 * u (ijk + ii2 - jj2))
                   + ci1 O4 * (ci0 O4 * u (ijk - ii1 - jj1) + ci1 O4 * u (ijk - jj1) + ci2 O4 * u (ijk + ii1 - jj1) + ci3 O4 * u (ijk + ii2 - jj1))
                   + ci2 O4 * (ci0 O4 * u (ijk - ii1) + ci1 O4 * u ijk + ci2 O4 * u (ijk + ii1) + ci3 O4 * u (ijk + ii2))
                   + ci3 O4 * (ci0 O4 * u (ijk - ii1 + jj1) + ci1 O4 * u (ijk + jj1) + ci2 O4 * u (ijk + ii1 + jj1) + ci3 O4 * u (ijk + ii2 + jj1)) )
                 + ugrid - ug k)))
            (loop_range (istart g) (iend g)))
            (loop_range (jstart g) (jend g)))
            (loop_range (kstart g) (kend g)) vt
     in (ut, vt))"

text \<open>\<^verbatim>\<open>Force::calcLargeScaleSource\<close> and \<^verbatim>\<open>Force::advec_wls_2nd\<close>; they return \<open>st\<close>.\<close>

definition calcLargeScaleSource :: "grid \<Rightarrow> array \<Rightarrow> array \<Rightarrow> array" where
  "calcLargeScaleSource g st sls =
    (let jj = icells g; kk = ijcells g
     in fold (\<lambda>k. fold (\<lambda>j. fold (\<lambda>i st.
          let ijk = i + j * jj + k * kk
          in st(ijk := st ijk + sls k))
          (loop_range (istart g) (iend g)))
          (loop_range (jstart g) (jend g)))
          (loop_range (kstart g) (kend g)) st)"

definition advec_wls_2nd :: "grid \<Rightarrow> array \<Rightarrow> array \<Rightarrow> array \<Rightarrow> array \<Rightarrow> array" where
  "advec_wls_2nd g st s wls dzhi =
    (let jj = icells g; kk = ijcells g
     in fold (\<lambda>k st.
          if wls k > 0
          then fold (\<lambda>j. fold (\<lambda>i st.
                 let ijk = i + j * jj + k * kk
                 in st(ijk := st ijk - wls k * (s k - s (k - 1)) * dzhi k))
                 (loop_range (istart g) (iend g)))
                 (loop_range (jstart g) (jend g)) st
          else fold (\<lambda>j. fold (\<lambda>i st.
                 let ijk = i + j * jj + k * kk
                 in st(ijk := st ijk - wls k * (s (k + 1) - s k) * dzhi (k + 1)))
                 (loop_range (istart g) (iend g)))
                 (loop_range (jstart g) (jend g)) st)
          (loop_range (kstart g) (kend g)) st)"

text \<open>
  \<^verbatim>\<open>Force::exec\<close>. An access \<^verbatim>\<open>m[name]->data\<close> to a field map finds the entry of
  \<open>name\<close>; when there is none, \<^verbatim>\<open>operator[]\<close> yields a null pointer and the access that
  follows is undefined: the model returns \<open>None\<close> there. \<open>map_field_data name h m\<close> is
  the map after the buffer \<^verbatim>\<open>m[name]->data\<close> has been rewritten by \<open>h\<close>.
\<close>

definition map_field_data :: "string \<Rightarrow> (array \<Rightarrow> array) \<Rightarrow> fieldmap \<Rightarrow> fieldmap" where
  "map_field_data name h m =
     map (\<lambda>(n, f). if n = name then (n, f\<lparr>data := h (data f)\<rparr>) else (n, f)) m"

text \<open>The loop over \<^verbatim>\<open>lslist\<close> of the mode \<^verbatim>\<open>swls == "1"\<close>.\<close>

fun exec_ls :: "grid \<Rightarrow> (string \<rightharpoonup> array) \<Rightarrow> string list \<Rightarrow> fieldmap \<Rightarrow> fieldmap option" where
  "exec_ls g lsp [] st = Some st"
| "exec_ls g lsp (it # rest) st =
     (case map_of st it of
        None \<Rightarrow> None
      | Some f \<Rightarrow>
         (case lsp it of
            None \<Rightarrow> None
          | Some sls \<Rightarrow>
              exec_ls g lsp rest (map_field_data it (\<lambda>d. calcLargeScaleSource g d sls) st)))"

text \<open>
  The loop over the whole map \<^verbatim>\<open>fields->st\<close> of the mode \<^verbatim>\<open>swwls == "1"\<close>: the entry
  \<open>(name, f)\<close> is advected with the mean profile of \<^verbatim>\<open>fields->sp[name]\<close>.
\<close>

fun exec_wls :: "grid \<Rightarrow> fieldmap \<Rightarrow> array \<Rightarrow> array \<Rightarrow> fieldmap \<Rightarrow> fieldmap option" where
  "exec_wls g sp wls dzhi [] = Some []"
| "exec_wls g sp wls dzhi ((name, f) # rest) =
     (case map_of sp name of
        None \<Rightarrow> None
      | Some s \<Rightarrow>
         (case exec_wls g sp wls dzhi rest of
            None \<Rightarrow> None
          | Some rest' \<Rightarrow>
              Some ((name, f\<lparr>data := advec_wls_2nd g (data f) (datamean s) wls dzhi\<rparr>) # rest')))"

definition exec ::
  "grid \<Rightarrow> fd_o4 \<Rightarrow> force \<Rightarrow> real list \<Rightarrow> real list \<Rightarrow> fields \<Rightarrow> real \<Rightarrow> fields option"
where
  "exec g O4 F others_u others_ut fl dt =
    (let fl =
       (if swlspres F = ''uflux''
        then fl\<lparr>fields_ut := (fields_ut fl)\<lparr>data :=
                 calcFlux g F others_u others_ut (data (fields_ut fl)) (data (fields_u fl)) (grid_dz g) dt\<rparr>\<rparr>
        else if swlspres F = ''geo''
        then (if swspatialorder g = ''2''
              then (let (ut, vt) = calcCoriolis_2nd g F (data (fields_ut fl), data (fields_vt fl))
                                     (data (fields_u fl)) (data (fields_v fl)) (force_ug F) (force_vg F)
                    in fl\<lparr>fields_ut := (fields_ut fl)\<lparr>data := ut\<rparr>,
                          fields_vt := (fields_vt fl)\<lparr>data := vt\<rparr>\<rparr>)
              else if swspatialorder g = ''4''
              then (let (ut, vt) = calcCoriolis_4th g O4 F (data (fields_ut fl), data (fields_vt fl))
                                     (data (fields_u fl)) (data (fields_v fl)) (force_ug F) (force_vg F)
                    in fl\<lparr>fields_ut := (fields_ut fl)\<lparr>data := ut\<rparr>,
                          fields_vt := (fields_vt fl)\<lparr>data := vt\<rparr>\<rparr>)
              else fl)
        else fl)
     in case (if swls F = ''1'' then exec_ls g (lsprofs F) (lslist F) (fields_st fl)
              else Some (fields_st fl)) of
          None \<Rightarrow> None
        | Some st \<Rightarrow>
           (case (if swwls F = ''1''
                  then exec_wls g (fields_sp fl) (force_wls F) (grid_dzhi g) st
                  else Some st) of
              None \<Rightarrow> None
            | Some st \<Rightarrow> Some (fl\<lparr>fields_st := st\<rparr>)))"



text \<open>
  \<^verbatim>\<open>Force::updateTimeDep\<close>. \<open>find_index1\<close> is the first loop: it counts the entries of
  \<^verbatim>\<open>timedeptime\<close> up to the first one that is later than the current time. The current
  time \<^verbatim>\<open>model->timeloop->get_time()\<close> is the parameter \<open>time\<close>.
\<close>

fun find_index1 :: "real \<Rightarrow> real list \<Rightarrow> nat \<Rightarrow> nat" where
  "find_index1 time [] index1 = index1"
| "find_index1 time (it # rest) index1 =
     (if time < it then index1 else find_index1 time rest (index1 + 1))"

text \<open>
  \<^verbatim>\<open>Force::updateTimeDepProfs\<close>: the loop over \<^verbatim>\<open>lslist\<close>. A name whose table is found in
  \<^verbatim>\<open>timedepdata\<close> has its profile \<^verbatim>\<open>lsprofs[name]\<close> rewritten at the levels \<open>k + kgc\<close>;
  writing through a missing entry of \<^verbatim>\<open>lsprofs\<close> is a null pointer access (\<open>None\<close>).
\<close>

fun updateTimeDepProfs_loop ::
  "grid \<Rightarrow> (string \<rightharpoonup> array) \<Rightarrow> real \<Rightarrow> real \<Rightarrow> int \<Rightarrow> int \<Rightarrow> string list \<Rightarrow>
   (string \<rightharpoonup> array) \<Rightarrow> (string \<rightharpoonup> array) option"
where
  "updateTimeDepProfs_loop g tdd fac0 fac1 index0 index1 [] lsp = Some lsp"
| "updateTimeDepProfs_loop g tdd fac0 fac1 index0 index1 (it1 # rest) lsp =
    (let kk = kmax g; kgc = kgc g; name = it1 @ ''ls''
     in case tdd name of
          None \<Rightarrow> updateTimeDepProfs_loop g tdd fac0 fac1 index0 index1 rest lsp
        | Some it2 \<Rightarrow>
           (if kmax g \<le> 0
            then updateTimeDepProfs_loop g tdd fac0 fac1 index0 index1 rest lsp
            else case lsp it1 of
                   None \<Rightarrow> None
                 | Some prof \<Rightarrow>
                     updateTimeDepProfs_loop g tdd fac0 fac1 index0 index1 rest
                       (lsp(it1 \<mapsto> fold (\<lambda>k prof.
                           prof(k + kgc := fac0 * it2 (index0 * kk + k) + fac1 * it2 (index1 * kk + k)))
                         (loop_range 0 (kmax g)) prof))))"

definition updateTimeDepProfs :: "grid \<Rightarrow> force \<Rightarrow> real \<Rightarrow> real \<Rightarrow> int \<Rightarrow> int \<Rightarrow> force option" where
  "updateTimeDepProfs g F fac0 fac1 index0 index1 =
     map_option (\<lambda>lsp. F\<lparr>lsprofs := lsp\<rparr>)
       (updateTimeDepProfs_loop g (timedepdata F) fac0 fac1 index0 index1 (lslist F) (lsprofs F))"

definition updateTimeDep :: "grid \<Rightarrow> force \<Rightarrow> real \<Rightarrow> force option" where
  "updateTimeDep g F time =
    (if swtimedep F = ''0'' then Some F
     else
       let index1 = find_index1 time (timedeptime F) 0;
           (fac0, fac1, index0, index1) =
             (if index1 = 0 then (0, 1, 0, index1)
              else if index1 = length (timedeptime F) then (1, 0, index1 - 1, index1 - 1)
              else
                let index0 = index1 - 1;
                    timestep = timedeptime F ! index1 - timedeptime F ! index0
                in ((timedeptime F ! index1 - time) / timestep,
                    (time - timedeptime F ! index0) / timestep, index0, index1))
       in updateTimeDepProfs g F fac0 fac1 (int index0) (int index1))"

section \<open>Fourth-order pressure solver (pres_4.cxx)\<close>

text \<open>
  The coefficient arrays of \<^verbatim>\<open>Pres_4\<close> (its members \<^verbatim>\<open>bmati\<close> and \<^verbatim>\<open>bmatj\<close> carry the
  prefix \<open>pres4_\<close>, the second-order solver having members of the same names), the MPI
  coordinates of \<^verbatim>\<open>Master\<close> and the eight work buffers that \<^verbatim>\<open>Pres_4::solve\<close> fills for one
  slab and hands to the heptadiagonal solver.
\<close>

record pres_4 =
  m1 :: array
  m2 :: array
  m3 :: array
  m4 :: array
  m5 :: array
  m6 :: array
  m7 :: array
  pres4_bmati :: array
  pres4_bmatj :: array

record master =
  mpicoordx :: int
  mpicoordy :: int

record work =
  m1temp :: array
  m2temp :: array
  m3temp :: array
  m4temp :: array
  m5temp :: array
  m6temp :: array
  m7temp :: array
  ptemp :: array

text \<open>
  The body of the loop over the slabs \<open>n\<close> in \<^verbatim>\<open>Pres_4::solve\<close>, from its beginning to
  the call of \<^verbatim>\<open>hdma\<close>, is five loop nests that fill the work buffers: the two bottom
  ghost rows, the \<open>kmax\<close> rows of the vertical operator, the first four coefficients of
  the two top ghost rows, and the remaining entries of the two top ghost rows. Each nest
  is one definition below, with the locals \<^verbatim>\<open>jj\<close>, \<^verbatim>\<open>kk\<close>, \<^verbatim>\<open>kki1\<close>, \<^verbatim>\<open>kki2\<close>, \<^verbatim>\<open>kki3\<close> of
  \<^verbatim>\<open>solve\<close> it uses; \<open>solve_fill\<close> runs them in the order of the source. The buffer \<open>p\<close>
  holds the transformed right-hand side.
\<close>

definition solve_bottom0 :: "grid \<Rightarrow> int \<Rightarrow> work \<Rightarrow> work" where
  "solve_bottom0 g jslice t =
    (let jj = iblock g
     in fold (\<lambda>j. fold (\<lambda>i t.
          let ik = i + j * jj
          in t\<lparr>m1temp := (m1temp t)(ik := 0), m2temp := (m2temp t)(ik := 0),
               m3temp := (m3temp t)(ik := 0), m4temp := (m4temp t)(ik := 1),
               m5temp := (m5temp t)(ik := 0), m6temp := (m6temp t)(ik := 0),
               m7temp := (m7temp t)(ik := - 1), ptemp := (ptemp t)(ik := 0)\<rparr>)
          (loop_range 0 (iblock g))) (loop_range 0 jslice) t)"

definition solve_bottom1 :: "grid \<Rightarrow> int \<Rightarrow> work \<Rightarrow> work" where
  "solve_bottom1 g jslice t =
    (let jj = iblock g; kki1 = 1 * iblock g * jslice
     in fold (\<lambda>j. fold (\<lambda>i t.
          let ik = i + j * jj
          in t\<lparr>m1temp := (m1temp t)(ik + kki1 := 0), m2temp := (m2temp t)(ik + kki1 := 0),
               m3temp := (m3temp t)(ik + kki1 := 0), m4temp := (m4temp t)(ik + kki1 := 1),
               m5temp := (m5temp t)(ik + kki1 := - 1), m6temp := (m6temp t)(ik + kki1 := 0),
               m7temp := (m7temp t)(ik + kki1 := 0), ptemp := (ptemp t)(ik + kki1 := 0)\<rparr>)
          (loop_range 0 (iblock g))) (loop_range 0 jslice) t)"

definition solve_rows ::
  "grid \<Rightarrow> master \<Rightarrow> pres_4 \<Rightarrow> array \<Rightarrow> int \<Rightarrow> int \<Rightarrow> work \<Rightarrow> work"
where
  "solve_rows g ms P p jslice n t =
    (let jj = iblock g; kk = iblock g * jblock g;
         kki1 = 1 * iblock g * jslice; kki2 = 2 * iblock g * jslice
     in fold (\<lambda>k. fold (\<lambda>j. fold (\<lambda>i t.
          let jindex = mpicoordx ms * jblock g + n * jslice + j;
              iindex = mpicoordy ms * iblock g + i;
              ijk = i + (j + n * jslice) * jj + k * kk;
              ik = i + j * jj + k * kki1
          in t\<lparr>m1temp := (m1temp t)(ik + kki2 := m1 P k),
               m2temp := (m2temp t)(ik + kki2 := m2 P k),
               m3temp := (m3temp t)(ik + kki2 := m3 P k),
               m4temp := (m4temp t)(ik + kki2 := m4 P k + pres4_bmati P iindex + pres4_bmatj P jindex),
               m5temp := (m5temp t)(ik + kki2 := m5 P k),
               m6temp := (m6temp t)(ik + kki2 := m6 P k),
               m7temp := (m7temp t)(ik + kki2 := m7 P k),
               ptemp := (ptemp t)(ik + kki2 := p ijk)\<rparr>)
          (loop_range 0 (iblock g))) (loop_range 0 jslice)) (loop_range 0 (kmax g)) t)"

definition solve_top :: "grid \<Rightarrow> master \<Rightarrow> int \<Rightarrow> int \<Rightarrow> work \<Rightarrow> work" where
  "solve_top g ms jslice n t =
    (let jj = iblock g; kki1 = 1 * iblock g * jslice;
         kki2 = 2 * iblock g * jslice; kki3 = 3 * iblock g * jslice
     in fold (\<lambda>j. fold (\<lambda>i t.
          let jindex = mpicoordx ms * jblock g + n * jslice + j;
              iindex = mpicoordy ms * iblock g + i;
              ik = i + j * jj + kmax g * kki1
          in if iindex = 0 \<and> jindex = 0
             then t\<lparr>m1temp := (m1temp t)(ik + kki2 := 0, ik + kki3 := - 2),
                    m2temp := (m2temp t)(ik + kki2 := - 1 / 3, ik + kki3 := 9),
                    m3temp := (m3temp t)(ik + kki2 := 2, ik + kki3 := 0),
                    m4temp := (m4temp t)(ik + kki2 := 1, ik + kki3 := 1)\<rparr>
             else t\<lparr>m1temp := (m1temp t)(ik + kki2 := 0, ik + kki3 := - 1),
                    m2temp := (m2temp t)(ik + kki2 := 0, ik + kki3 := 0),
                    m3temp := (m3temp t)(ik + kki2 := - 1, ik + kki3 := 0),
                    m4temp := (m4temp t)(ik + kki2 := 1, ik + kki3 := 1)\<rparr>)
          (loop_range 0 (iblock g))) (loop_range 0 jslice) t)"

definition solve_top_rest :: "grid \<Rightarrow> int \<Rightarrow> work \<Rightarrow> work" where
  "solve_top_rest g jslice t =
    (let jj = iblock g; kki1 = 1 * iblock g * jslice;
         kki2 = 2 * iblock g * jslice; kki3 = 3 * iblock g * jslice
     in fold (\<lambda>j. fold (\<lambda>i t.
          let ik = i + j * jj + kmax g * kki1
          in t\<lparr>m5temp := (m5temp t)(ik + kki2 := 0, ik + kki3 := 0),
               m6temp := (m6temp t)(ik + kki2 := 0, ik + kki3 := 0),
               m7temp := (m7temp t)(ik + kki2 := 0, ik + kki3 := 0),
               ptemp := (ptemp t)(ik + kki2 := 0, ik + kki3 := 0)\<rparr>)
          (loop_range 0 (iblock g))) (loop_range 0 jslice) t)"

definition solve_fill ::
  "grid \<Rightarrow> master \<Rightarrow> pres_4 \<Rightarrow> array \<Rightarrow> int \<Rightarrow> int \<Rightarrow> work \<Rightarrow> work"
where
  "solve_fill g ms P p jslice n t =
    (let t = solve_bottom0 g jslice t;
         t = solve_bottom1 g jslice t;
         t = solve_rows g ms P p jslice n t;
         t = solve_top g ms jslice n t;
         t = solve_top_rest g jslice t
     in t)"

text \<open>The seven coefficients of the row that the work buffers hold at offset \<open>n\<close>.\<close>

definition coeffs :: "work \<Rightarrow> int \<Rightarrow> real \<times> real \<times> real \<times> real \<times> real \<times> real \<times> real" where
  "coeffs t n = (m1temp t n, m2temp t n, m3temp t n, m4temp t n, m5temp t n, m6temp t n, m7temp t n)"

section \<open>Interior cells and example data\<close>

text \<open>
  The cells of the interior in the order in which the triple loop of a kernel visits
  them, and the offset \<^verbatim>\<open>ijk = i + j*jj + k*kk\<close> of a cell.
\<close>

definition cells :: "grid \<Rightarrow> (int \<times> int \<times> int) list" where
  "cells g = List.product (loop_range (kstart g) (kend g))
               (List.product (loop_range (jstart g) (jend g)) (loop_range (istart g) (iend g)))"

definition offset :: "grid \<Rightarrow> int \<times> int \<times> int \<Rightarrow> int" where
  "offset g = (\<lambda>(k, j, i). i + j * icells g + k * (icells g * jcells g))"

text \<open>
  The cells \<open>(j, i)\<close> of one slab of the fourth-order column solve, in the order of the
  loops over \<^verbatim>\<open>j < jslice\<close> and \<^verbatim>\<open>i < iblock\<close>.
\<close>

definition slab :: "grid \<Rightarrow> int \<Rightarrow> (int \<times> int) list" where
  "slab g jslice = List.product (loop_range 0 jslice) (loop_range 0 (iblock g))"

text \<open>
  A small grid for the examples: one interior cell \<open>(1, 1, 1)\<close> with one ghost cell on
  every side, so the block has \<open>3 \<times> 3 \<times> 3\<close> cells and the interior cell has offset 13.
\<close>

definition ex_grid :: grid where
  "ex_grid = \<lparr>itot = 1, jtot = 1, ktot = 1, imax = 1, jmax = 1, kmax = 1,
     iblock = 1, jblock = 1, igc = 1, jgc = 1, kgc = 1,
     icells = 3, jcells = 3, kcells = 3, ijcells = 9, ncells = 27,
     istart = 1, iend = 2, jstart = 1, jend = 2, kstart = 1, kend = 2,
     dx = 1, dy = 2, zsize = 1, utrans = 0, vtrans = 0,
     grid_dz = (\<lambda>k. 1), grid_dzi = (\<lambda>k. 1), grid_dzhi = (\<lambda>k. 1 / 2),
     swspatialorder = ''2''\<rparr>"

text \<open>
  The entry \<open>k\<close> of row \<open>i\<close> of a time-dependent table, which is stored flattened in rows
  of length \<open>kmax\<close>: the spec writes it \<open>values[i][k]\<close>.
\<close>

definition table_row :: "grid \<Rightarrow> array \<Rightarrow> nat \<Rightarrow> int \<Rightarrow> real" where
  "table_row g tab i k = tab (int i * kmax g + k)"

text \<open>
  The scenario S6 of the spec for the time interpolation: times \<open>{0, 10}\<close> and a table for
  the scalar \<open>s\<close> with rows \<open>P0[k] = 0\<close> and \<open>P1[k] = k\<close>, on a grid with \<open>kmax = 3\<close>.
\<close>

definition ex_force_timedep :: force where
  "ex_force_timedep = \<lparr>swlspres = ''0'', swls = ''1'', swwls = ''0'', swtimedep = ''1'',
     uflux = 0, fc = 0, force_ug = (\<lambda>k. 0), force_vg = (\<lambda>k. 0), force_wls = (\<lambda>k. 0),
     lslist = [''s''], timedeplist = [''s''], lsprofs = [''s'' \<mapsto> (\<lambda>k. 0)],
     timedepdata = [''sls'' \<mapsto> (\<lambda>n. if n < 3 then 0 else of_int (n - 3))],
     timedeptime = [0, 10]\<rparr>"

text \<open>
  The scenario S4 of the spec for the flux controller: target \<open>uflux = 10\<close> on the example
  grid (where \<open>utrans = 0\<close>).
\<close>

definition ex_force :: force where
  "ex_force = \<lparr>swlspres = ''uflux'', swls = ''0'', swwls = ''0'', swtimedep = ''0'',
     uflux = 10, fc = 0, force_ug = (\<lambda>k. 0), force_vg = (\<lambda>k. 0), force_wls = (\<lambda>k. 0),
     lslist = [], timedeplist = [], lsprofs = Map.empty, timedepdata = Map.empty,
     timedeptime = []\<rparr>"

text \<open>
  The scenario S5 of the spec for the subsidence: \<open>wls = 1\<close>, one scalar \<open>s\<close> that is not in
  \<^verbatim>\<open>lslist\<close>, with mean profile \<open>s[k] = k\<close> and a zero tendency.
\<close>

definition ex_force_wls :: force where
  "ex_force_wls = \<lparr>swlspres = ''0'', swls = ''0'', swwls = ''1'', swtimedep = ''0'',
     uflux = 0, fc = 0, force_ug = (\<lambda>k. 0), force_vg = (\<lambda>k. 0), force_wls = (\<lambda>k. 1),
     lslist = [], timedeplist = [], lsprofs = Map.empty, timedepdata = Map.empty,
     timedeptime = []\<rparr>"

definition ex_fields :: fields where
  "ex_fields = \<lparr>fields_u = \<lparr>data = (\<lambda>n. 0), datamean = (\<lambda>k. 0)\<rparr>,
     fields_v = \<lparr>data = (\<lambda>n. 0), datamean = (\<lambda>k. 0)\<rparr>,
     fields_w = \<lparr>data = (\<lambda>n. 0), datamean = (\<lambda>k. 0)\<rparr>,
     fields_ut = \<lparr>data = (\<lambda>n. 0), datamean = (\<lambda>k. 0)\<rparr>,
     fields_vt = \<lparr>data = (\<lambda>n. 0), datamean = (\<lambda>k. 0)\<rparr>,
     fields_wt = \<lparr>data = (\<lambda>n. 0), datamean = (\<lambda>k. 0)\<rparr>,
     fields_st = [(''s'', \<lparr>data = (\<lambda>n. 0), datamean = (\<lambda>k. 0)\<rparr>)],
     fields_sp = [(''s'', \<lparr>data = (\<lambda>n. 0), datamean = (\<lambda>k. of_int k)\<rparr>)]\<rparr>"

text \<open>
  Coefficient arrays and work buffers for an example of the fourth-order column solve on the
  example grid (one column, \<open>kmax = 1\<close>, so the slab has the rows 0 to 4).
\<close>

definition ex_pres_4 :: pres_4 where
  "ex_pres_4 = \<lparr>m1 = (\<lambda>k. 1), m2 = (\<lambda>k. 2), m3 = (\<lambda>k. 3), m4 = (\<lambda>k. 4), m5 = (\<lambda>k. 5),
     m6 = (\<lambda>k. 6), m7 = (\<lambda>k. 7), pres4_bmati = (\<lambda>i. 0), pres4_bmatj = (\<lambda>j. 0)\<rparr>"

definition ex_work :: work where
  "ex_work = \<lparr>m1temp = (\<lambda>n. 8), m2temp = (\<lambda>n. 8), m3temp = (\<lambda>n. 8), m4temp = (\<lambda>n. 8),
     m5temp = (\<lambda>n. 8), m6temp = (\<lambda>n. 8), m7temp = (\<lambda>n. 8), ptemp = (\<lambda>n. 8)\<rparr>"

text \<open>
  A time table with a repeated first time: times \<open>{0, 0, 10}\<close> and rows \<open>P0[k] = 1\<close>,
  \<open>P1[k] = 2\<close> and \<open>P2[k] = 3\<close> for the scalar \<open>s\<close>, on a grid with \<open>kmax = 3\<close>.
\<close>

definition ex_table_repeat :: array where
  "ex_table_repeat = (\<lambda>n. if n < 3 then 1 else if n < 6 then 2 else 3)"

definition ex_force_repeat :: force where
  "ex_force_repeat = ex_force_timedep\<lparr>
     timedepdata := [''sls'' \<mapsto> ex_table_repeat], timedeptime := [0, 0, 10]\<rparr>"

text \<open>
  Fields for the examples of the flux controller: \<open>u\<close> has the value \<open>c\<close> everywhere and
  the tendencies are zero. \<open>ex_o4\<close> stands for the coefficients of the fourth-order
  scheme, which the flux controller does not use.
\<close>

definition ex_fields_u :: "real \<Rightarrow> fields" where
  "ex_fields_u c = ex_fields\<lparr>fields_u := \<lparr>data = (\<lambda>n. c), datamean = (\<lambda>k. 0)\<rparr>\<rparr>"

definition ex_o4 :: fd_o4 where
  "ex_o4 = \<lparr>ci0 = 0, ci1 = 0, ci2 = 0, ci3 = 0\<rparr>"

text \<open>
  Three variants of the example grid for the flux controller. \<open>ex_grid_ranks\<close> is the
  block of each of two ranks that share a domain of two columns (\<open>itot = 2\<close>), with a
  translation velocity \<open>utrans = 1\<close>. In \<open>ex_grid_thick\<close> the vertical spacing \<open>dz = 2\<close>
  does not add up to \<open>zsize = 1\<close>. In \<open>ex_grid_wide\<close> the domain has
  \<open>65536 \<times> 32768 = 2\<^sup>3\<^sup>1\<close> columns.
\<close>

definition ex_grid_ranks :: grid where
  "ex_grid_ranks = ex_grid\<lparr>itot := 2, utrans := 1\<rparr>"

definition ex_grid_thick :: grid where
  "ex_grid_thick = ex_grid\<lparr>grid_dz := (\<lambda>k. 2)\<rparr>"

definition ex_grid_wide :: grid where
  "ex_grid_wide = ex_grid\<lparr>itot := 65536, jtot := 32768\<rparr>"

text \<open>
  A grid for an example of the column loop of the second-order solver: two columns
  \<open>(i, j) = (0, 0)\<close> and \<open>(1, 0)\<close> of two levels each, in a block of \<open>4 \<times> 3 \<times> 4\<close> cells,
  and a solver object whose coefficients \<open>a\<close> and \<open>c\<close> are those \<open>pres_2nd_init_ac\<close> fills.
\<close>

definition ex_grid_columns :: grid where
  "ex_grid_columns = ex_grid\<lparr>itot := 2, ktot := 2, imax := 2, kmax := 2,
     icells := 4, kcells := 4, ijcells := 12, ncells := 48, iend := 3, kend := 3,
     grid_dz := (\<lambda>k. of_int k)\<rparr>"

definition ex_cpres :: cpres where
  "ex_cpres = \<lparr>pres_a = fst (pres_2nd_init_ac ex_grid_columns (\<lambda>k. 0, \<lambda>k. 0)),
     pres_b = (\<lambda>k. 0),
     pres_c = snd (pres_2nd_init_ac ex_grid_columns (\<lambda>k. 0, \<lambda>k. 0)),
     pres_d = (\<lambda>k. 0), pres_xin = (\<lambda>k. 0), pres_xout = (\<lambda>k. 0),
     pres_bmati = (\<lambda>i. - of_int i), pres_bmatj = (\<lambda>j. - 2)\<rparr>"

section \<open>Loops over cells\<close>

text \<open>
  A nest of loops is one loop over the list of its index tuples. When every pass of a
  loop writes its own cell, the value of a cell after the loop is the value its own pass
  wrote, and a cell no pass writes keeps its value.
\<close>

lemma fold_nest3:
  "fold (\<lambda>k. fold (\<lambda>j. fold (\<lambda>i. body i j k) is) js) ks
     = fold (\<lambda>(k, j, i). body i j k) (List.product ks (List.product js is))"
proof (induction ks)
  case Nil
  show ?case by simp
next
  case (Cons k ks)
  have "fold (\<lambda>j. fold (\<lambda>i. body i j k) is) js
          = fold ((\<lambda>(k, j, i). body i j k) \<circ> Pair k) (List.product js is)"
    by (induction js) (simp_all add: fold_map comp_def)
  with Cons show ?case by (simp add: fold_map)
qed

lemma fold_nest2:
  "fold (\<lambda>j. fold (\<lambda>i. body i j) is) js = fold (\<lambda>(j, i). body i j) (List.product js is)"
  by (induction js) (simp_all add: fold_map comp_def)

lemma fold_obs_frame:
  assumes "\<And>c s. c \<in> set cs \<Longrightarrow> obs (body c s) = obs s"
  shows "obs (fold body cs s) = obs s"
  using assms by (induction cs arbitrary: s) simp_all

lemma fold_obs_last:
  assumes "distinct cs" and "c \<in> set cs"
    and dep: "\<And>s s'. obs s = obs s' \<Longrightarrow> obs (body c s) = obs (body c s')"
    and frame: "\<And>c' s. c' \<in> set cs \<Longrightarrow> c' \<noteq> c \<Longrightarrow> obs (body c' s) = obs s"
  shows "obs (fold body cs s) = obs (body c s)"
  using assms(1,2,4)
proof (induction cs arbitrary: s)
  case Nil
  then show ?case by simp
next
  case (Cons x cs)
  show ?case
  proof (cases "x = c")
    case True
    with Cons.prems(1) have "c \<notin> set cs" by simp
    then have "obs (fold body cs (body c s)) = obs (body c s)"
      using Cons.prems(3) by (intro fold_obs_frame) auto
    with True show ?thesis by simp
  next
    case False
    with Cons.prems have "c \<in> set cs" "distinct cs" by auto
    then have "obs (fold body cs (body x s)) = obs (body c (body x s))"
      using Cons.prems(3) by (intro Cons.IH) auto
    moreover have "obs (body x s) = obs s"
      using Cons.prems(3) False by simp
    then have "obs (body c (body x s)) = obs (body c s)"
      by (rule dep)
    ultimately show ?thesis by simp
  qed
qed

lemma digit_unique:
  fixes x y q r b :: int
  assumes "0 \<le> x" "x < b" "0 \<le> y" "y < b" and "x + q * b = y + r * b"
  shows "x = y \<and> q = r"
proof -
  have "x = (x + q * b) mod b"
    using assms(1,2) by simp
  also have "\<dots> = (y + r * b) mod b"
    by (simp only: assms(5))
  also have "\<dots> = y"
    using assms(3,4) by simp
  finally have "x = y" .
  moreover from this assms have "q = r" by simp
  ultimately show ?thesis by simp
qed

lemma cell_index_inj:
  fixes i j k i' j' k' ic jc :: int
  assumes "0 \<le> i" "i < ic" "0 \<le> i'" "i' < ic" "0 \<le> j" "j < jc" "0 \<le> j'" "j' < jc"
    and "i + j * ic + k * (ic * jc) = i' + j' * ic + k' * (ic * jc)"
  shows "i = i' \<and> j = j' \<and> k = k'"
proof -
  have "i + (j + k * jc) * ic = i' + (j' + k' * jc) * ic"
    using assms(9) by (simp add: algebra_simps)
  with assms have 1: "i = i'" "j + k * jc = j' + k' * jc"
    using digit_unique [of i ic i' "j + k * jc" "j' + k' * jc"] by simp_all
  with assms show ?thesis
    using digit_unique [of j jc j' k k'] by simp
qed

lemma set_loop_range [simp]: "set (loop_range lo hi) = {lo..<hi}"
  by (auto simp: loop_range_def)

lemma distinct_loop_range [simp]: "distinct (loop_range lo hi)"
  by (simp add: loop_range_def)

lemma distinct_cells: "distinct (cells g)"
  by (simp add: cells_def distinct_product)

lemma in_cells:
  "(k, j, i) \<in> set (cells g) \<longleftrightarrow>
     kstart g \<le> k \<and> k < kend g \<and> jstart g \<le> j \<and> j < jend g \<and> istart g \<le> i \<and> i < iend g"
  by (auto simp: cells_def)

lemma offset_inj:
  assumes "grid_ok g" "c \<in> set (cells g)" "c' \<in> set (cells g)" "offset g c' = offset g c"
  shows "c' = c"
proof -
  obtain k j i k' j' i' where c: "c = (k, j, i)" "c' = (k', j', i')"
    by (cases c, cases c') auto
  with assms show ?thesis
    using cell_index_inj [of i' "icells g" i j' "jcells g" j k' k]
    by (auto simp: grid_ok_def in_cells offset_def)
qed

lemma interior_fold_once:
  assumes "grid_ok g" and c: "c \<in> set (cells g)" and n: "n = offset g c"
    and dep: "\<And>s s'. sel s n = sel s' n \<Longrightarrow> sel (body c s) n = sel (body c s') n"
    and frame: "\<And>c' s m. m \<noteq> offset g c' \<Longrightarrow> sel (body c' s) m = sel s m"
  shows "sel (fold body (cells g) s) n = sel (body c s) n"
proof (rule fold_obs_last [where obs = "\<lambda>s. sel s n", OF distinct_cells c])
  fix c' s assume "c' \<in> set (cells g)" "c' \<noteq> c"
  with offset_inj [OF assms(1) c] n have "n \<noteq> offset g c'" by metis
  then show "sel (body c' s) n = sel s n" by (rule frame)
qed (rule dep)

lemma interior_fold_frame:
  assumes frame: "\<And>c' s m. m \<noteq> offset g c' \<Longrightarrow> sel (body c' s) m = sel s m"
    and "\<And>c. c \<in> set (cells g) \<Longrightarrow> n \<noteq> offset g c"
  shows "sel (fold body (cells g) s) n = sel s n"
  by (rule fold_obs_frame [where obs = "\<lambda>s. sel s n"]) (use assms in auto)


section \<open>Second-order pressure solver: right-hand side and projection\<close>

text \<open>
  Claim C3. For every interior cell \<open>(i, j, k)\<close> and every \<open>dt > 0\<close>, \<open>pres_2nd_in\<close> sets
  \<open>p[ijk]\<close> to the discrete divergence of \<open>(ut + u/dt, vt + v/dt, wt + w/dt)\<close>: the
  difference between the east neighbour \<open>ijk + 1\<close> and the cell times \<open>1/dx\<close>, plus the
  difference between the north neighbour \<open>ijk + icells\<close> and the cell times \<open>1/dy\<close>, plus
  the difference between the top neighbour \<open>ijk + ijcells\<close> and the cell times \<open>dzi[k]\<close>.
\<close>

theorem pres_2nd_in_divergence:
  assumes "grid_ok g" and "0 < dt"
    and "istart g \<le> i" "i < iend g" "jstart g \<le> j" "j < jend g" "kstart g \<le> k" "k < kend g"
  shows "pres_2nd_in g p u v w ut vt wt dzi dt (i + j * icells g + k * ijcells g) =
    (let ijk = i + j * icells g + k * ijcells g in
       ((ut (ijk + 1) + u (ijk + 1) / dt) - (ut ijk + u ijk / dt)) * (1 / dx g)
     + ((vt (ijk + icells g) + v (ijk + icells g) / dt) - (vt ijk + v ijk / dt)) * (1 / dy g)
     + ((wt (ijk + ijcells g) + w (ijk + ijcells g) / dt) - (wt ijk + w ijk / dt)) * dzi k)"
proof -
  have ij: "ijcells g = icells g * jcells g"
    using assms(1) by (simp add: grid_ok_def)
  have c: "(k, j, i) \<in> set (cells g)"
    using assms by (simp add: in_cells)
  show ?thesis
    unfolding pres_2nd_in_def Let_def fold_nest3 cells_def [symmetric] ij
    by (rule trans [OF interior_fold_once [where sel = "\<lambda>p. p" and c = "(k, j, i)", OF assms(1) c]])
       (auto simp: offset_def)
qed

theorem pres_2nd_in_divergence_witness:
  "grid_ok ex_grid \<and>
   pres_2nd_in ex_grid (\<lambda>n. 0) (\<lambda>n. of_int n) (\<lambda>n. 0) (\<lambda>n. 0) (\<lambda>n. 0) (\<lambda>n. of_int n) (\<lambda>n. 0)
     (\<lambda>k. 1) 2 13 = 2"
proof -
  have ok: "grid_ok ex_grid"
    by (simp add: grid_ok_def ex_grid_def)
  have "pres_2nd_in ex_grid (\<lambda>n. 0) (\<lambda>n. of_int n) (\<lambda>n. 0) (\<lambda>n. 0) (\<lambda>n. 0) (\<lambda>n. of_int n) (\<lambda>n. 0)
     (\<lambda>k. 1) 2 (1 + 1 * icells ex_grid + 1 * ijcells ex_grid) = 2"
    by (subst pres_2nd_in_divergence [OF ok]) (simp_all add: ex_grid_def)
  with ok show ?thesis by (simp add: ex_grid_def)
qed

text \<open>
  Claim C4. For every interior cell \<open>(i, j, k)\<close>, \<open>pres_2nd_out\<close> updates the tendencies by
  \<open>ut[ijk] -= (p[ijk] - p[ijk-1])/dx\<close>, \<open>vt[ijk] -= (p[ijk] - p[ijk-icells])/dy\<close> and
  \<open>wt[ijk] -= (p[ijk] - p[ijk-ijcells]) * dzhi[k]\<close>, and it modifies nothing else: an offset
  that is not the offset of an interior cell keeps its value in all three buffers.
\<close>

theorem pres_2nd_out_projection:
  assumes "grid_ok g" and "pres_2nd_out g (ut, vt, wt) p dzhi = (ut', vt', wt')"
  shows "(\<forall>k j i. kstart g \<le> k \<and> k < kend g \<and> jstart g \<le> j \<and> j < jend g \<and> istart g \<le> i \<and> i < iend g \<longrightarrow>
           (let ijk = i + j * icells g + k * ijcells g in
              ut' ijk = ut ijk - (p ijk - p (ijk - 1)) / dx g \<and>
              vt' ijk = vt ijk - (p ijk - p (ijk - icells g)) / dy g \<and>
              wt' ijk = wt ijk - (p ijk - p (ijk - ijcells g)) * dzhi k)) \<and>
         (\<forall>n. (\<forall>k j i. kstart g \<le> k \<and> k < kend g \<and> jstart g \<le> j \<and> j < jend g \<and> istart g \<le> i \<and> i < iend g \<longrightarrow>
                  n \<noteq> i + j * icells g + k * ijcells g) \<longrightarrow>
              ut' n = ut n \<and> vt' n = vt n \<and> wt' n = wt n)"
proof -
  have ij: "ijcells g = icells g * jcells g"
    using assms(1) by (simp add: grid_ok_def)
  let ?body = "\<lambda>(k, j, i) (ut, vt, wt).
     (ut(i + j * icells g + k * (icells g * jcells g) :=
           ut (i + j * icells g + k * (icells g * jcells g)) - (p (i + j * icells g + k * (icells g * jcells g)) - p (i + j * icells g + k * (icells g * jcells g) - 1)) * (1 / dx g)),
      vt(i + j * icells g + k * (icells g * jcells g) :=
           vt (i + j * icells g + k * (icells g * jcells g)) - (p (i + j * icells g + k * (icells g * jcells g)) - p (i + j * icells g + k * (icells g * jcells g) - icells g)) * (1 / dy g)),
      wt(i + j * icells g + k * (icells g * jcells g) :=
           wt (i + j * icells g + k * (icells g * jcells g)) - (p (i + j * icells g + k * (icells g * jcells g)) - p (i + j * icells g + k * (icells g * jcells g) - icells g * jcells g)) * dzhi k))"
  have out: "fold ?body (cells g) (ut, vt, wt) = (ut', vt', wt')"
    using assms(2) unfolding pres_2nd_out_def Let_def fold_nest3 cells_def [symmetric] .
  have cell: "ut' (offset g c) = fst (?body c (ut, vt, wt)) (offset g c) \<and>
      vt' (offset g c) = fst (snd (?body c (ut, vt, wt))) (offset g c) \<and>
      wt' (offset g c) = snd (snd (?body c (ut, vt, wt))) (offset g c)" if "c \<in> set (cells g)" for c
    using interior_fold_once [where sel = fst and body = ?body and s = "(ut, vt, wt)", OF assms(1) that refl]
      interior_fold_once [where sel = "\<lambda>s. fst (snd s)" and body = ?body and s = "(ut, vt, wt)", OF assms(1) that refl]
      interior_fold_once [where sel = "\<lambda>s. snd (snd s)" and body = ?body and s = "(ut, vt, wt)", OF assms(1) that refl]
    unfolding out by (simp add: offset_def split_def)
  have frame: "ut' n = ut n \<and> vt' n = vt n \<and> wt' n = wt n"
    if "\<And>c. c \<in> set (cells g) \<Longrightarrow> n \<noteq> offset g c" for n
    using interior_fold_frame [where sel = fst and body = ?body and s = "(ut, vt, wt)" and n = n, OF _ that]
      interior_fold_frame [where sel = "\<lambda>s. fst (snd s)" and body = ?body and s = "(ut, vt, wt)" and n = n, OF _ that]
      interior_fold_frame [where sel = "\<lambda>s. snd (snd s)" and body = ?body and s = "(ut, vt, wt)" and n = n, OF _ that]
    unfolding out by (simp add: offset_def split_def)
  show ?thesis
  proof (intro conjI allI impI)
    fix k j i
    assume "kstart g \<le> k \<and> k < kend g \<and> jstart g \<le> j \<and> j < jend g \<and> istart g \<le> i \<and> i < iend g"
    then have "(k, j, i) \<in> set (cells g)" by (simp add: in_cells)
    from cell [OF this]
    show "let ijk = i + j * icells g + k * ijcells g in
              ut' ijk = ut ijk - (p ijk - p (ijk - 1)) / dx g \<and>
              vt' ijk = vt ijk - (p ijk - p (ijk - icells g)) / dy g \<and>
              wt' ijk = wt ijk - (p ijk - p (ijk - ijcells g)) * dzhi k"
      by (simp add: offset_def ij Let_def)
  next
    fix n
    assume *: "\<forall>k j i. kstart g \<le> k \<and> k < kend g \<and> jstart g \<le> j \<and> j < jend g \<and> istart g \<le> i \<and> i < iend g \<longrightarrow>
                  n \<noteq> i + j * icells g + k * ijcells g"
    have "n \<noteq> offset g c" if "c \<in> set (cells g)" for c
    proof -
      obtain k j i where "c = (k, j, i)" by (cases c) auto
      with that * show ?thesis by (simp add: in_cells offset_def ij)
    qed
    from frame [OF this] show "ut' n = ut n" "vt' n = vt n" "wt' n = wt n" by simp_all
  qed
qed

theorem pres_2nd_out_projection_witness:
  "grid_ok ex_grid \<and>
   (case pres_2nd_out ex_grid (\<lambda>n. 0, \<lambda>n. 0, \<lambda>n. 0) (\<lambda>n. of_int n) (\<lambda>k. 1 / 2) of
      (ut', vt', wt') \<Rightarrow>
        ut' 13 = - 1 \<and> vt' 13 = - 3 / 2 \<and> wt' 13 = - 9 / 2 \<and> ut' 12 = 0 \<and> vt' 12 = 0 \<and> wt' 12 = 0)"
proof -
  have ok: "grid_ok ex_grid"
    by (simp add: grid_ok_def ex_grid_def)
  obtain ut' vt' wt' where
    out: "pres_2nd_out ex_grid (\<lambda>n. 0, \<lambda>n. 0, \<lambda>n. 0) (\<lambda>n. of_int n) (\<lambda>k. 1 / 2) = (ut', vt', wt')"
    by (metis prod_cases3)
  note res = pres_2nd_out_projection [OF ok out]
  from res [THEN conjunct1, rule_format, of 1 1 1]
  have "ut' 13 = - 1 \<and> vt' 13 = - 3 / 2 \<and> wt' 13 = - 9 / 2"
    by (simp add: ex_grid_def)
  moreover from res [THEN conjunct2, rule_format, of 12]
  have "ut' 12 = 0 \<and> vt' 12 = 0 \<and> wt' 12 = 0"
    by (simp add: ex_grid_def)
  ultimately show ?thesis using ok by (simp add: out)
qed

section \<open>Second-order pressure solver: the tridiagonal solve\<close>

lemma tdma_forward_agree:
  assumes "\<forall>k\<in>A. gam k = gam' k"
  shows "fst (fold (tdma_forward a b c xin) ks (tmp, xout, gam))
           = fst (fold (tdma_forward a b c xin) ks (tmp, xout, gam')) \<and>
         fst (snd (fold (tdma_forward a b c xin) ks (tmp, xout, gam)))
           = fst (snd (fold (tdma_forward a b c xin) ks (tmp, xout, gam'))) \<and>
         (\<forall>k\<in>A \<union> set ks. snd (snd (fold (tdma_forward a b c xin) ks (tmp, xout, gam))) k
           = snd (snd (fold (tdma_forward a b c xin) ks (tmp, xout, gam'))) k)"
  using assms
proof (induction ks arbitrary: tmp xout gam gam' A)
  case Nil
  then show ?case by simp
next
  case (Cons k ks)
  let ?g = "gam(k := c (k - 1) / tmp)" and ?g' = "gam'(k := c (k - 1) / tmp)"
  let ?tmp = "b k - a k * (c (k - 1) / tmp)"
  let ?x = "xout(k := (xin k - a k * xout (k - 1)) / ?tmp)"
  have step: "fold (tdma_forward a b c xin) (k # ks) (tmp, xout, gam)
                = fold (tdma_forward a b c xin) ks (?tmp, ?x, ?g)"
    "fold (tdma_forward a b c xin) (k # ks) (tmp, xout, gam')
                = fold (tdma_forward a b c xin) ks (?tmp, ?x, ?g')"
    by (simp_all add: tdma_forward_def Let_def)
  have "\<forall>n\<in>insert k A. ?g n = ?g' n"
    using Cons.prems by simp
  then show ?case
    unfolding step
    using Cons.IH [where A = "insert k A" and gam = ?g and gam' = ?g' and tmp = ?tmp and xout = ?x]
    by (simp del: fun_upd_apply)
qed

lemma tdma_forward_frame:
  assumes "n \<notin> set ks"
  shows "snd (snd (fold (tdma_forward a b c xin) ks s)) n = snd (snd s) n"
  by (rule fold_obs_frame [where obs = "\<lambda>s. snd (snd s) n"])
     (use assms in \<open>auto simp: tdma_forward_def Let_def split_def\<close>)

lemma tdma_backward_agree:
  assumes "\<forall>k\<in>set ks. gam (k + 1) = gam' (k + 1)"
  shows "fold (tdma_backward gam) ks xout = fold (tdma_backward gam') ks xout"
  using assms by (induction ks arbitrary: xout) (simp_all add: tdma_backward_def)

text \<open>
  Claim C8. Two runs of \<open>tdma\<close> that differ only in the initial contents of the
  workspace \<open>gam\<close> produce the same \<open>xout\<close>: the forward sweep writes \<open>gam[k]\<close> for every
  \<open>k\<close> in \<open>[1, size)\<close> before the backward sweep reads it, so on these entries the
  workspace after the run does not depend on its initial contents either; \<open>gam[0]\<close>, like
  every entry outside \<open>[1, size)\<close>, is never written, and since the results do not depend
  on it, never read. This holds for every size and all inputs.
\<close>

theorem tdma_workspace_independent:
  "fst (tdma a b c xin xout gam sz) = fst (tdma a b c xin xout gam' sz) \<and>
   (\<forall>k. 1 \<le> k \<and> k < sz \<longrightarrow>
      snd (tdma a b c xin xout gam sz) k = snd (tdma a b c xin xout gam' sz) k) \<and>
   (\<forall>k. \<not> (1 \<le> k \<and> k < sz) \<longrightarrow> snd (tdma a b c xin xout gam sz) k = gam k)"
proof -
  let ?S = "\<lambda>gam. fold (tdma_forward a b c xin) (loop_range 1 sz) (b 0, xout(0 := xin 0 / b 0), gam)"
  have agree: "fst (?S gam) = fst (?S gam')" "fst (snd (?S gam)) = fst (snd (?S gam'))"
    "\<forall>k\<in>set (loop_range 1 sz). snd (snd (?S gam)) k = snd (snd (?S gam')) k"
    using tdma_forward_agree [of "{}" gam gam' a b c xin "loop_range 1 sz" "b 0" "xout(0 := xin 0 / b 0)"]
    by simp_all
  have out: "tdma a b c xin xout gam sz =
      (fold (tdma_backward (snd (snd (?S gam)))) (rev (loop_range 0 (sz - 1))) (fst (snd (?S gam))),
       snd (snd (?S gam)))" for gam
    by (simp add: tdma_def Let_def split_def)
  have "fold (tdma_backward (snd (snd (?S gam)))) (rev (loop_range 0 (sz - 1))) (fst (snd (?S gam)))
      = fold (tdma_backward (snd (snd (?S gam')))) (rev (loop_range 0 (sz - 1))) (fst (snd (?S gam)))"
    by (rule tdma_backward_agree) (use agree(3) in auto)
  then have 1: "fst (tdma a b c xin xout gam sz) = fst (tdma a b c xin xout gam' sz)"
    by (simp add: out agree(2))
  have 2: "snd (tdma a b c xin xout gam sz) k = snd (tdma a b c xin xout gam' sz) k"
    if "1 \<le> k \<and> k < sz" for k
    using agree(3) that by (simp add: out)
  have 3: "snd (tdma a b c xin xout gam sz) k = gam k" if "\<not> (1 \<le> k \<and> k < sz)" for k
    using that tdma_forward_frame [of k "loop_range 1 sz" a b c xin "(b 0, xout(0 := xin 0 / b 0), gam)"]
    by (simp add: out)
  from 1 2 3 show ?thesis by blast
qed

theorem tdma_workspace_independent_witness:
  "fst (tdma (\<lambda>k. 1) (\<lambda>k. 4) (\<lambda>k. 2) (\<lambda>k. 8) (\<lambda>k. 0) (\<lambda>k. 7) 2)
     = fst (tdma (\<lambda>k. 1) (\<lambda>k. 4) (\<lambda>k. 2) (\<lambda>k. 8) (\<lambda>k. 0) (\<lambda>k. 0) 2) \<and>
   snd (tdma (\<lambda>k. 1) (\<lambda>k. 4) (\<lambda>k. 2) (\<lambda>k. 8) (\<lambda>k. 0) (\<lambda>k. 7) 2) 1
     = snd (tdma (\<lambda>k. 1) (\<lambda>k. 4) (\<lambda>k. 2) (\<lambda>k. 8) (\<lambda>k. 0) (\<lambda>k. 0) 2) 1 \<and>
   snd (tdma (\<lambda>k. 1) (\<lambda>k. 4) (\<lambda>k. 2) (\<lambda>k. 8) (\<lambda>k. 0) (\<lambda>k. 7) 2) 0 = 7"
  using tdma_workspace_independent [of "\<lambda>k. 1" "\<lambda>k. 4" "\<lambda>k. 2" "\<lambda>k. 8" "\<lambda>k. 0" "\<lambda>k. 7" 2 "\<lambda>k. 0"]
  by simp

lemma pres_2nd_init_ac_values:
  assumes "pres_2nd_init_ac g (a0, c0) = (a, c)" and "0 \<le> k" "k < ktot g"
  shows "a k = grid_dz g (k + kgc g) * grid_dzhi g (k + kgc g) \<and>
         c k = grid_dz g (k + kgc g) * grid_dzhi g (k + kgc g + 1)"
proof -
  let ?body = "\<lambda>k (a, c).
        (a(k := grid_dz g (k + kgc g) * grid_dzhi g (k + kgc g)),
         c(k := grid_dz g (k + kgc g) * grid_dzhi g (k + kgc g + 1)))"
  have k: "k \<in> set (loop_range 0 (ktot g))"
    using assms(2,3) by simp
  have "fst (fold ?body (loop_range 0 (ktot g)) (a0, c0)) k = fst (?body k (a0, c0)) k"
    by (rule fold_obs_last [where obs = "\<lambda>s. fst s k", OF distinct_loop_range k])
       (auto simp: split_def)
  moreover
  have "snd (fold ?body (loop_range 0 (ktot g)) (a0, c0)) k = snd (?body k (a0, c0)) k"
    by (rule fold_obs_last [where obs = "\<lambda>s. snd s k", OF distinct_loop_range k])
       (auto simp: split_def)
  ultimately show ?thesis
    using assms(1) by (simp add: pres_2nd_init_ac_def)
qed

lemma pres_2nd_solve_matrix_values:
  assumes "pres_2nd_solve_matrix g p dz a c bmati bmatj i j (b0, xin0) = (b, xin)"
    and "0 \<le> k" "k < ktot g"
  shows "xin k = dz (k + kgc g) * dz (k + kgc g)
                   * p (i + igc g + (j + jgc g) * icells g + (k + kgc g) * (icells g * jcells g)) \<and>
         b k = dz (k + kgc g) * dz (k + kgc g) * (bmati i + bmatj j) - (a k + c k)
                 + (if k = 0 then a 0 else 0)
                 + (if k = ktot g - 1
                    then (if i = 0 \<and> j = 0 then - c (ktot g - 1) else c (ktot g - 1))
                    else 0)"
proof -
  let ?body = "\<lambda>k (b, xin).
     (b(k := dz (k + kgc g) * dz (k + kgc g) * (bmati i + bmatj j) - (a k + c k)),
      xin(k := dz (k + kgc g) * dz (k + kgc g)
                 * p (i + igc g + (j + jgc g) * icells g + (k + kgc g) * (icells g * jcells g))))"
  let ?S = "fold ?body (loop_range 0 (ktot g)) (b0, xin0)"
  have in_range: "n \<in> set (loop_range 0 (ktot g))" if "0 \<le> n" "n < ktot g" for n
    using that by simp
  have b1: "fst ?S n = fst (?body n (b0, xin0)) n" if "0 \<le> n" "n < ktot g" for n
    by (rule fold_obs_last [where obs = "\<lambda>s. fst s n", OF distinct_loop_range in_range [OF that]])
       (auto simp: split_def)
  have x1: "snd ?S k = snd (?body k (b0, xin0)) k"
    by (rule fold_obs_last [where obs = "\<lambda>s. snd s k", OF distinct_loop_range in_range [OF assms(2,3)]])
       (auto simp: split_def)
  have out: "(b, xin) =
      (let b1 = fst ?S; b2 = b1(0 := b1 0 + a 0)
       in if i = 0 \<and> j = 0 then b2(ktot g - 1 := b2 (ktot g - 1) - c (ktot g - 1))
          else b2(ktot g - 1 := b2 (ktot g - 1) + c (ktot g - 1)), snd ?S)"
    using assms(1) by (simp add: pres_2nd_solve_matrix_def Let_def split_def)
  have k0: "0 \<le> (0::int)" "0 < ktot g" "0 \<le> ktot g - 1" "ktot g - 1 < ktot g"
    using assms(2,3) by simp_all
  have "xin k = dz (k + kgc g) * dz (k + kgc g)
                   * p (i + igc g + (j + jgc g) * icells g + (k + kgc g) * (icells g * jcells g))"
    using out x1 by simp
  moreover
  have "b k = dz (k + kgc g) * dz (k + kgc g) * (bmati i + bmatj j) - (a k + c k)
                 + (if k = 0 then a 0 else 0)
                 + (if k = ktot g - 1
                    then (if i = 0 \<and> j = 0 then - c (ktot g - 1) else c (ktot g - 1))
                    else 0)"
    using out b1 [OF assms(2,3)] b1 [OF k0(1,2)] b1 [OF k0(3,4)]
    by (auto simp: Let_def)
  ultimately show ?thesis
    by simp
qed

lemma column_offset_inj:
  assumes "0 \<le> igc g" "imax g + igc g \<le> icells g" "0 \<le> jgc g" "jmax g + jgc g \<le> jcells g"
    and "0 \<le> i" "i < imax g" "0 \<le> j" "j < jmax g"
    and "0 \<le> i'" "i' < imax g" "0 \<le> j'" "j' < jmax g"
    and "i + igc g + (j + jgc g) * icells g + (k + kgc g) * (icells g * jcells g)
         = i' + igc g + (j' + jgc g) * icells g + (k' + kgc g) * (icells g * jcells g)"
  shows "i = i' \<and> j = j' \<and> k = k'"
  using cell_index_inj [of "i + igc g" "icells g" "i' + igc g" "j + jgc g" "jcells g" "j' + jgc g"
      "k + kgc g" "k' + kgc g"] assms
  by simp

lemma pres_2nd_solve_column_keeps:
  "pres_a (fst (pres_2nd_solve_column g dz i j sp)) = pres_a (fst sp)"
  "pres_c (fst (pres_2nd_solve_column g dz i j sp)) = pres_c (fst sp)"
  "pres_bmati (fst (pres_2nd_solve_column g dz i j sp)) = pres_bmati (fst sp)"
  "pres_bmatj (fst (pres_2nd_solve_column g dz i j sp)) = pres_bmatj (fst sp)"
  by (simp_all add: pres_2nd_solve_column_def Let_def split_def)

lemma pres_2nd_solve_column_frame:
  assumes "\<And>k. 0 \<le> k \<Longrightarrow> k < ktot g \<Longrightarrow>
             n \<noteq> i + igc g + (j + jgc g) * icells g + (k + kgc g) * (icells g * jcells g)"
  shows "snd (pres_2nd_solve_column g dz i j sp) n = snd sp n"
proof -
  have "fold (\<lambda>k p. p(i + igc g + (j + jgc g) * icells g + (k + kgc g) * (icells g * jcells g) := x k))
          (loop_range 0 (ktot g)) p n = p n" for x p
    by (rule fold_obs_frame [where obs = "\<lambda>p. p n"]) (use assms in auto)
  then show ?thesis
    by (simp add: pres_2nd_solve_column_def Let_def split_def)
qed

lemma pres_2nd_solve_column_own:
  assumes "icells g * jcells g \<noteq> 0" and "0 \<le> k" "k < ktot g"
    and "pres_2nd_solve_matrix g p dz (pres_a s) (pres_c s) (pres_bmati s) (pres_bmatj s) i j
           (pres_b s, pres_xin s) = (b, xin)"
  shows "snd (pres_2nd_solve_column g dz i j (s, p))
           (i + igc g + (j + jgc g) * icells g + (k + kgc g) * (icells g * jcells g))
         = fst (tdma (pres_a s) b (pres_c s) xin (pres_xout s) (pres_d s) (ktot g)) k"
proof -
  have k: "k \<in> set (loop_range 0 (ktot g))"
    using assms(2,3) by simp
  have "fold (\<lambda>k p. p(i + igc g + (j + jgc g) * icells g + (k + kgc g) * (icells g * jcells g) := x k))
          (loop_range 0 (ktot g)) p
          (i + igc g + (j + jgc g) * icells g + (k + kgc g) * (icells g * jcells g)) = x k" for x
    by (rule trans [OF fold_obs_last [where c = k and obs = "\<lambda>p. p (i + igc g + (j + jgc g) * icells g + (k + kgc g) * (icells g * jcells g))",
              OF distinct_loop_range k]])
       (use assms(1) in auto)
  then show ?thesis
    by (simp add: pres_2nd_solve_column_def Let_def split_def assms(4))
qed

lemma pres_2nd_solve_columns_fold:
  "pres_2nd_solve_columns g dz sp =
     fold (\<lambda>(j, i). pres_2nd_solve_column g dz i j)
       (List.product (loop_range 0 (jmax g)) (loop_range 0 (imax g))) sp"
  by (simp add: pres_2nd_solve_columns_def fold_nest2)

lemma other_columns_frame:
  assumes layout: "0 \<le> igc g" "imax g + igc g \<le> icells g" "0 \<le> jgc g" "jmax g + jgc g \<le> jcells g"
    and col: "0 \<le> i" "i < imax g" "0 \<le> j" "j < jmax g"
    and cs: "set cs \<subseteq> set (List.product (loop_range 0 (jmax g)) (loop_range 0 (imax g)))"
      "(j, i) \<notin> set cs"
    and res: "fold (\<lambda>(j, i). pres_2nd_solve_column g dz i j) cs sp = sp'"
  shows "pres_a (fst sp') = pres_a (fst sp)" "pres_c (fst sp') = pres_c (fst sp)"
    "pres_bmati (fst sp') = pres_bmati (fst sp)" "pres_bmatj (fst sp') = pres_bmatj (fst sp)"
    "snd sp' (i + igc g + (j + jgc g) * icells g + (k + kgc g) * (icells g * jcells g))
       = snd sp (i + igc g + (j + jgc g) * icells g + (k + kgc g) * (icells g * jcells g))"
proof -
  let ?n = "i + igc g + (j + jgc g) * icells g + (k + kgc g) * (icells g * jcells g)"
  let ?obs = "\<lambda>sp. (pres_a (fst sp), pres_c (fst sp), pres_bmati (fst sp), pres_bmatj (fst sp), snd sp ?n)"
  have "?obs (fold (\<lambda>(j, i). pres_2nd_solve_column g dz i j) cs sp) = ?obs sp"
  proof (rule fold_obs_frame [where obs = ?obs])
    fix c' sp0 assume c': "c' \<in> set cs"
    obtain j' i' where ji: "c' = (j', i')"
      by (cases c') auto
    from c' cs ji have r: "0 \<le> i'" "i' < imax g" "0 \<le> j'" "j' < jmax g" and ne: "(j', i') \<noteq> (j, i)"
      by auto
    have "?n \<noteq> i' + igc g + (j' + jgc g) * icells g + (k' + kgc g) * (icells g * jcells g)" for k'
      using column_offset_inj [OF layout col r, of k k'] ne by auto
    then have "snd (pres_2nd_solve_column g dz i' j' sp0) ?n = snd sp0 ?n"
      by (intro pres_2nd_solve_column_frame) simp
    then show "?obs ((\<lambda>(j, i). pres_2nd_solve_column g dz i j) c' sp0) = ?obs sp0"
      by (simp add: ji pres_2nd_solve_column_keeps)
  qed
  then show "pres_a (fst sp') = pres_a (fst sp)" "pres_c (fst sp') = pres_c (fst sp)"
    "pres_bmati (fst sp') = pres_bmati (fst sp)" "pres_bmatj (fst sp') = pres_bmatj (fst sp)"
    "snd sp' ?n = snd sp ?n"
    by (simp_all add: res)
qed

text \<open>
  Claim C2. Take any column \<open>(i, j)\<close> of the loop of \<^verbatim>\<open>pres_2nd_solve\<close>, that is the
  wavenumber pair \<open>(iindex, jindex) = (i, j)\<close>, and let \<open>(s1, p1)\<close> be the state in which the
  loop reaches it, started on the transformed right-hand side \<open>phat\<close> with the coefficients
  \<open>a\<close> and \<open>c\<close> that \<^verbatim>\<open>pres_2nd_init\<close> filled. The system \<open>(a, b, c, xin)\<close> that the column
  hands to \<open>tdma\<close> has, at every level \<open>k\<close> in \<open>[0, ktot)\<close>, the coefficients
  \<open>a[k] = dz[k+kgc] * dzhi[k+kgc]\<close>, \<open>c[k] = dz[k+kgc] * dzhi[k+kgc+1]\<close>, the right-hand side
  \<open>dz[k+kgc]\<^sup>2 * phat[ijk]\<close> (the columns solved before have not touched it), and the diagonal
  \<open>dz[k+kgc]\<^sup>2 * (bmati[i] + bmatj[j]) - (a[k] + c[k])\<close> with the boundary substitutions:
  \<open>a[0]\<close> is always added at \<open>k = 0\<close>; at \<open>k = ktot - 1\<close>, \<open>c[ktot-1]\<close> is subtracted when
  \<open>(i, j) = (0, 0)\<close> and added for every other mode. The pressure that the loop leaves in
  this column is the solution \<open>tdma\<close> returns for this system. The layout hypotheses say
  that the columns lie inside the block, so that they do not overlap.
\<close>

theorem pres_2nd_solve_system:
  assumes layout: "0 \<le> igc g" "imax g + igc g \<le> icells g" "0 \<le> jgc g" "jmax g + jgc g \<le> jcells g"
    and init: "pres_2nd_init_ac g (a0, c0) = (pres_a s, pres_c s)"
    and col: "0 \<le> i" "i < imax g" "0 \<le> j" "j < jmax g"
    and k: "0 \<le> k" "k < ktot g"
    and before: "pres_2nd_solve_before g (grid_dz g) i j (s, phat) = (s1, p1)"
    and system: "pres_2nd_solve_matrix g p1 (grid_dz g) (pres_a s1) (pres_c s1)
                   (pres_bmati s1) (pres_bmatj s1) i j (pres_b s1, pres_xin s1) = (b, xin)"
  shows "pres_a s1 k = grid_dz g (k + kgc g) * grid_dzhi g (k + kgc g) \<and>
         pres_c s1 k = grid_dz g (k + kgc g) * grid_dzhi g (k + kgc g + 1) \<and>
         b k = grid_dz g (k + kgc g) * grid_dz g (k + kgc g) * (pres_bmati s i + pres_bmatj s j)
                 - (pres_a s1 k + pres_c s1 k)
                 + (if k = 0 then pres_a s1 0 else 0)
                 + (if k = ktot g - 1
                    then (if i = 0 \<and> j = 0 then - pres_c s1 (ktot g - 1) else pres_c s1 (ktot g - 1))
                    else 0) \<and>
         xin k = grid_dz g (k + kgc g) * grid_dz g (k + kgc g)
                   * phat (i + igc g + (j + jgc g) * icells g + (k + kgc g) * (icells g * jcells g)) \<and>
         snd (pres_2nd_solve_columns g (grid_dz g) (s, phat))
             (i + igc g + (j + jgc g) * icells g + (k + kgc g) * (icells g * jcells g))
           = fst (tdma (pres_a s1) b (pres_c s1) xin (pres_xout s1) (pres_d s1) (ktot g)) k"
proof -
  let ?cols = "List.product (loop_range 0 (jmax g)) (loop_range 0 (imax g))"
  let ?col = "\<lambda>(j, i). pres_2nd_solve_column g (grid_dz g) i j"
  let ?n = "i + igc g + (j + jgc g) * icells g + (k + kgc g) * (icells g * jcells g)"
  have "(j, i) \<in> set ?cols"
    using col by simp
  from split_list_first [OF this]
  obtain pre post where split: "?cols = pre @ (j, i) # post" and pre: "(j, i) \<notin> set pre"
    by blast
  have "distinct ?cols"
    by (simp add: distinct_product)
  then have post: "(j, i) \<notin> set post"
    by (simp add: split)
  have sub: "set pre \<subseteq> set ?cols" "set post \<subseteq> set ?cols"
    by (auto simp: split)
  have "x \<noteq> (j, i)" if "x \<in> set pre" for x
    using that pre by auto
  then have "takeWhile (\<lambda>c. c \<noteq> (j, i)) (pre @ (j, i) # post) = pre @ takeWhile (\<lambda>c. c \<noteq> (j, i)) ((j, i) # post)"
    by (rule takeWhile_append2)
  then have "takeWhile (\<lambda>c. c \<noteq> (j, i)) ?cols = pre"
    by (simp add: split)
  then have s1: "fold ?col pre (s, phat) = (s1, p1)"
    using before by (simp add: pres_2nd_solve_before_def)
  note f1 = other_columns_frame [OF layout col sub(1) pre s1, simplified]
  have ac: "pres_2nd_init_ac g (a0, c0) = (pres_a s1, pres_c s1)"
    by (simp add: init f1)
  have nz: "icells g * jcells g \<noteq> 0"
    using layout col by auto
  have "pres_2nd_solve_columns g (grid_dz g) (s, phat) = fold ?col post (?col (j, i) (s1, p1))"
    by (simp add: pres_2nd_solve_columns_fold split s1)
  from other_columns_frame(5) [OF layout col sub(2) post this [symmetric], of k]
  have "snd (pres_2nd_solve_columns g (grid_dz g) (s, phat)) ?n
          = snd (pres_2nd_solve_column g (grid_dz g) i j (s1, p1)) ?n"
    by simp
  also have "\<dots> = fst (tdma (pres_a s1) b (pres_c s1) xin (pres_xout s1) (pres_d s1) (ktot g)) k"
    by (rule pres_2nd_solve_column_own [OF nz k system])
  finally have result: "snd (pres_2nd_solve_columns g (grid_dz g) (s, phat)) ?n
          = fst (tdma (pres_a s1) b (pres_c s1) xin (pres_xout s1) (pres_d s1) (ktot g)) k" .
  have p1: "p1 ?n = phat ?n"
    using f1(5) [of k] by simp
  from pres_2nd_solve_matrix_values [OF system k] pres_2nd_init_ac_values [OF ac k] result
  show ?thesis
    by (simp add: f1(3,4) p1)
qed

theorem pres_2nd_solve_system_witness:
  "(case pres_2nd_solve_before ex_grid_columns (grid_dz ex_grid_columns) 1 0 (ex_cpres, \<lambda>n. of_int n) of
      (s1, p1) \<Rightarrow>
        (case pres_2nd_solve_matrix ex_grid_columns p1 (grid_dz ex_grid_columns) (pres_a s1) (pres_c s1)
                (pres_bmati s1) (pres_bmatj s1) 1 0 (pres_b s1, pres_xin s1) of
           (b, xin) \<Rightarrow>
             pres_a s1 1 = 1 \<and> pres_c s1 1 = 1 \<and> b 1 = - 13 \<and> xin 1 = 120 \<and>
             snd (pres_2nd_solve_columns ex_grid_columns (grid_dz ex_grid_columns) (ex_cpres, \<lambda>n. of_int n)) 30
               = fst (tdma (pres_a s1) b (pres_c s1) xin (pres_xout s1) (pres_d s1) 2) 1))"
proof -
  let ?g = ex_grid_columns
  obtain s1 p1 where before:
    "pres_2nd_solve_before ?g (grid_dz ?g) 1 0 (ex_cpres, \<lambda>n. of_int n) = (s1, p1)"
    by (metis surj_pair)
  obtain b xin where system:
    "pres_2nd_solve_matrix ?g p1 (grid_dz ?g) (pres_a s1) (pres_c s1)
       (pres_bmati s1) (pres_bmatj s1) 1 0 (pres_b s1, pres_xin s1) = (b, xin)"
    by (metis surj_pair)
  have g: "igc ?g = 1" "jgc ?g = 1" "kgc ?g = 1" "imax ?g = 2" "jmax ?g = 1" "ktot ?g = 2"
    "icells ?g = 4" "jcells ?g = 3" "grid_dz ?g = (\<lambda>k. of_int k)" "grid_dzhi ?g = (\<lambda>k. 1 / 2)"
    by (simp_all add: ex_grid_columns_def ex_grid_def)
  have init: "pres_2nd_init_ac ?g (\<lambda>k. 0, \<lambda>k. 0) = (pres_a ex_cpres, pres_c ex_cpres)"
    by (simp add: ex_cpres_def)
  have bm: "pres_bmati ex_cpres 1 = - 1" "pres_bmatj ex_cpres 0 = - 2"
    by (simp_all add: ex_cpres_def)
  from pres_2nd_solve_system [OF _ _ _ _ init _ _ _ _ _ _ before system, of 1]
  have "pres_a s1 1 = 1 \<and> pres_c s1 1 = 1 \<and> b 1 = - 13 \<and> xin 1 = 120 \<and>
        snd (pres_2nd_solve_columns ?g (grid_dz ?g) (ex_cpres, \<lambda>n. of_int n)) 30
          = fst (tdma (pres_a s1) b (pres_c s1) xin (pres_xout s1) (pres_d s1) 2) 1"
    by (simp add: g bm)
  then show ?thesis
    by (simp add: before system)
qed

section \<open>Forcing: flux controller and subsidence\<close>

lemma fold_if_nest:
  "(\<lambda>k s. if c k then fold (\<lambda>j. fold (\<lambda>i. A i j k) is) js s
            else fold (\<lambda>j. fold (\<lambda>i. B i j k) is) js s)
     = (\<lambda>k. fold (\<lambda>j. fold (\<lambda>i. if c k then A i j k else B i j k) is) js)"
  by (intro ext) simp

lemma fold_add_const:
  assumes "distinct ns"
  shows "fold (\<lambda>n f. f(n := f n + c)) ns f m = (if m \<in> set ns then f m + c else (f m :: real))"
proof (cases "m \<in> set ns")
  case True
  have "fold (\<lambda>n f. f(n := f n + c)) ns f m = (f(m := f m + c)) m"
    by (rule fold_obs_last [where obs = "\<lambda>f. f m" and c = m, OF assms True]) auto
  with True show ?thesis by simp
next
  case False
  have "fold (\<lambda>n f. f(n := f n + c)) ns f m = f m"
    by (rule fold_obs_frame [where obs = "\<lambda>f. f m"]) (use False in auto)
  with False show ?thesis by simp
qed

lemma calcFlux_adds_fbody:
  "calcFlux g F others_u others_ut ut u dz dt n =
     (if 0 \<le> n \<and> n < ncells g then ut n + calcFlux_fbody g F others_u others_ut ut u dz dt
      else ut n)"
  unfolding calcFlux_def Let_def by (simp add: fold_add_const)

lemma fold_pair_sum:
  "fold (\<lambda>x (a, b). (a + f x, b + h x)) xs (a0, b0)
     = (a0 + sum_list (map f xs), b0 + (sum_list (map h xs) :: real))"
  by (induction xs arbitrary: a0 b0) (simp_all add: algebra_simps)

lemma sum_list_product:
  "sum_list (map f (List.product xs ys)) = (\<Sum>x\<leftarrow>xs. \<Sum>y\<leftarrow>ys. (f (x, y) :: real))"
  by (induction xs) (simp_all add: comp_def)

lemma sum_list_loop_range: "(\<Sum>x\<leftarrow>loop_range lo hi. f x) = (\<Sum>x = lo..<hi. (f x :: real))"
  by (simp add: sum_list_distinct_conv_sum_set)

lemma sum_list_cells:
  "sum_list (map f (cells g)) =
     (\<Sum>k = kstart g..<kend g. \<Sum>j = jstart g..<jend g. \<Sum>i = istart g..<iend g. (f (k, j, i) :: real))"
  by (simp add: cells_def sum_list_product sum_list_loop_range)

lemma calcFlux_sums_eq:
  "calcFlux_sums g ut u dz = (interior_sum g u dz, interior_sum g ut dz)"
proof -
  have "fold (\<lambda>(k, j, i) (uavg, utavg).
          (uavg + u (i + j * icells g + k * ijcells g) * dz k,
           utavg + ut (i + j * icells g + k * ijcells g) * dz k)) (cells g) (0, 0)
      = (0 + sum_list (map (\<lambda>(k, j, i). u (i + j * icells g + k * ijcells g) * dz k) (cells g)),
         0 + sum_list (map (\<lambda>(k, j, i). ut (i + j * icells g + k * ijcells g) * dz k) (cells g)))"
    by (rule trans [OF _ fold_pair_sum]) (simp add: split_def)
  then show ?thesis
    unfolding calcFlux_sums_def Let_def fold_nest3 cells_def [symmetric]
    by (simp add: sum_list_cells interior_sum_def)
qed



lemma exec_uflux_fields:
  assumes "swlspres F = ''uflux''" and "exec g O4 F others_u others_ut fl dt = Some fl'"
  shows "data (fields_ut fl') =
           calcFlux g F others_u others_ut (data (fields_ut fl)) (data (fields_u fl)) (grid_dz g) dt"
    and "fields_u fl' = fields_u fl"
  using assms by (simp_all add: exec_def Let_def split: option.splits if_splits) auto










lemma exec_uflux_returns:
  assumes "swlspres F = ''uflux''" "swls F \<noteq> ''1''" "swwls F \<noteq> ''1''"
  shows "exec g O4 F others_u others_ut fl dt =
     Some (fl\<lparr>fields_ut := (fields_ut fl)\<lparr>data :=
        calcFlux g F others_u others_ut (data (fields_ut fl)) (data (fields_u fl)) (grid_dz g) dt\<rparr>\<rparr>)"
  using assms by (simp add: exec_def Let_def)

lemma interior_sum_one_cell:
  assumes "kstart g = 1" "kend g = 2" "jstart g = 1" "jend g = 2" "istart g = 1" "iend g = 2"
  shows "interior_sum g f dz = f (1 + icells g + ijcells g) * dz 1"
proof -
  have "{1::int..<2} = {1}" by auto
  then show ?thesis by (simp add: interior_sum_def assms)
qed

lemma ex_grid_ok: "grid_ok ex_grid"
  by (simp add: grid_ok_def ex_grid_def)


lemma ex_interior_sum:
  "interior_sum ex_grid f dz = f 13 * dz 1"
  "interior_sum ex_grid_ranks f dz = f 13 * dz 1"
  "interior_sum ex_grid_thick f dz = f 13 * dz 1"
  "interior_sum ex_grid_wide f dz = f 13 * dz 1"
  by (subst interior_sum_one_cell;
      simp add: ex_grid_def ex_grid_ranks_def ex_grid_thick_def ex_grid_wide_def)+





text \<open>
  Claim C9. In \<open>exec\<close> with \<^verbatim>\<open>swlspres = "uflux"\<close> the computed body force is added at every
  offset \<open>n\<close> in \<open>[0, ncells)\<close> of the buffer, ghost cells as well as interior cells: when
  \<open>exec\<close> returns, every such element of \<open>ut\<close> has changed by exactly \<open>fbody\<close> (the value
  \<open>calcFlux_fbody\<close> computes from the fields before the call), whatever the other modes
  of \<open>exec\<close> are, and no element outside this range has changed.
\<close>

theorem exec_uflux_whole_block:
  assumes "swlspres F = ''uflux''" and "exec g O4 F others_u others_ut fl dt = Some fl'"
  shows "data (fields_ut fl') n =
     (if 0 \<le> n \<and> n < ncells g
      then data (fields_ut fl) n
             + calcFlux_fbody g F others_u others_ut (data (fields_ut fl)) (data (fields_u fl)) (grid_dz g) dt
      else data (fields_ut fl) n)"
  by (simp only: exec_uflux_fields(1) [OF assms] calcFlux_adds_fbody)

theorem exec_uflux_whole_block_witness:
  "\<exists>fl'. exec ex_grid ex_o4 ex_force [] [] (ex_fields_u 5) 1 = Some fl' \<and>
     calcFlux_fbody ex_grid ex_force [] [] (data (fields_ut (ex_fields_u 5))) (data (fields_u (ex_fields_u 5)))
       (grid_dz ex_grid) 1 = 5 \<and>
     data (fields_ut fl') 0 = 5 \<and> data (fields_ut fl') 13 = 5 \<and> data (fields_ut fl') 26 = 5 \<and>
     data (fields_ut fl') (- 1) = 0 \<and> data (fields_ut fl') 27 = 0"
proof -
  have sw: "swlspres ex_force = ''uflux''" "swls ex_force \<noteq> ''1''" "swwls ex_force \<noteq> ''1''"
    by (simp_all add: ex_force_def)
  from exec_uflux_returns [OF sw]
  obtain fl' where e: "exec ex_grid ex_o4 ex_force [] [] (ex_fields_u 5) 1 = Some fl'"
    by blast
  have n: "ncells ex_grid = 27" "data (fields_ut (ex_fields_u 5)) = (\<lambda>n. 0)"
    "data (fields_u (ex_fields_u 5)) = (\<lambda>n. 5)" "grid_dz ex_grid = (\<lambda>k. 1)"
    by (simp_all add: ex_grid_def ex_fields_u_def ex_fields_def)
  have fb: "calcFlux_fbody ex_grid ex_force [] [] (\<lambda>n. 0) (\<lambda>n. 5) (\<lambda>k. 1) 1 = 5"
    by (simp add: calcFlux_fbody_def calcFlux_sums_eq ex_interior_sum getSum_def)
       (simp add: ex_grid_def ex_force_def int32_mul_def)
  note res = exec_uflux_whole_block [OF sw(1) e]
  have "data (fields_ut fl') 0 = 5" "data (fields_ut fl') 13 = 5" "data (fields_ut fl') 26 = 5"
    "data (fields_ut fl') (- 1) = 0" "data (fields_ut fl') 27 = 0"
    using res [of 0] res [of 13] res [of 26] res [of "- 1"] res [of 27]
    by (simp_all add: fb n)
  with e fb show ?thesis
    by (intro exI [of _ fl']) (simp add: n)
qed

text \<open>
  Claim C7. For every interior level \<open>k\<close> and every \<open>(i, j)\<close> of the interior,
  \<open>advec_wls_2nd\<close> subtracts \<open>wls[k] * (s[k] - s[k-1]) * dzhi[k]\<close> from \<open>st[ijk]\<close> when
  \<open>wls[k] > 0\<close> and \<open>wls[k] * (s[k+1] - s[k]) * dzhi[k+1]\<close> otherwise. In particular, for
  \<open>wls = 1\<close>, mean profile \<open>s[k] = k\<close> and \<open>st\<close> initially zero, the result is
  \<open>st[ijk] = - dzhi[k]\<close> at every interior cell.
\<close>

theorem advec_wls_2nd_upwind:
  assumes "grid_ok g"
    and "kstart g \<le> k" "k < kend g" "jstart g \<le> j" "j < jend g" "istart g \<le> i" "i < iend g"
  shows "advec_wls_2nd g st s wls dzhi (i + j * icells g + k * ijcells g) =
           st (i + j * icells g + k * ijcells g)
            - (if wls k > 0 then wls k * (s k - s (k - 1)) * dzhi k
               else wls k * (s (k + 1) - s k) * dzhi (k + 1)) \<and>
         advec_wls_2nd g (\<lambda>n. 0) (\<lambda>k. of_int k) (\<lambda>k. 1) dzhi (i + j * icells g + k * ijcells g) =
           - dzhi k"
proof -
  have ij: "ijcells g = icells g * jcells g"
    using assms(1) by (simp add: grid_ok_def)
  have c: "(k, j, i) \<in> set (cells g)"
    using assms by (simp add: in_cells)
  have *: "advec_wls_2nd g st s wls dzhi (i + j * icells g + k * ijcells g) =
           st (i + j * icells g + k * ijcells g)
            - (if wls k > 0 then wls k * (s k - s (k - 1)) * dzhi k
               else wls k * (s (k + 1) - s k) * dzhi (k + 1))" for st s wls
    unfolding advec_wls_2nd_def Let_def fold_if_nest fold_nest3 cells_def [symmetric]
    by (rule trans [OF interior_fold_once [where sel = "\<lambda>p. p" and c = "(k, j, i)", OF assms(1) c]])
       (auto simp: offset_def ij)
  show ?thesis
    by (simp add: *)
qed

theorem advec_wls_2nd_upwind_witness:
  "grid_ok ex_grid \<and>
   advec_wls_2nd ex_grid (\<lambda>n. 10) (\<lambda>k. of_int (k * k)) (\<lambda>k. - 2) (\<lambda>k. of_int k) 13 = 22 \<and>
   advec_wls_2nd ex_grid (\<lambda>n. 0) (\<lambda>k. of_int k) (\<lambda>k. 1) (\<lambda>k. of_int k) 13 = - 1"
proof -
  have "advec_wls_2nd ex_grid (\<lambda>n. 10) (\<lambda>k. of_int (k * k)) (\<lambda>k. - 2) (\<lambda>k. of_int k)
          (1 + 1 * icells ex_grid + 1 * ijcells ex_grid) = 22 \<and>
        advec_wls_2nd ex_grid (\<lambda>n. 0) (\<lambda>k. of_int k) (\<lambda>k. 1) (\<lambda>k. of_int k)
          (1 + 1 * icells ex_grid + 1 * ijcells ex_grid) = - 1"
    using advec_wls_2nd_upwind [OF ex_grid_ok, of 1 1 1 "\<lambda>n. 10" "\<lambda>k. of_int (k * k)" "\<lambda>k. - 2" "\<lambda>k. of_int k"]
    by (simp add: ex_grid_def)
  with ex_grid_ok show ?thesis by (simp add: ex_grid_def)
qed

section \<open>Forcing: time-dependent profiles\<close>

lemma find_index1_takeWhile:
  "find_index1 t xs n = n + length (takeWhile (\<lambda>x. x \<le> t) xs)"
  by (induction xs arbitrary: n) (auto simp: not_less)

lemma find_index1_props:
  shows "find_index1 t xs 0 \<le> length xs"
    and "\<And>i. i < find_index1 t xs 0 \<Longrightarrow> xs ! i \<le> t"
    and "find_index1 t xs 0 < length xs \<Longrightarrow> t < xs ! find_index1 t xs 0"
proof -
  let ?i1 = "find_index1 t xs 0"
  have i1: "?i1 = length (takeWhile (\<lambda>x. x \<le> t) xs)"
    by (simp add: find_index1_takeWhile)
  show "?i1 \<le> length xs"
    by (simp add: i1 length_takeWhile_le)
  show "xs ! i \<le> t" if "i < ?i1" for i
  proof -
    have "takeWhile (\<lambda>x. x \<le> t) xs ! i \<in> set (takeWhile (\<lambda>x. x \<le> t) xs)"
      using that by (simp add: i1)
    then show ?thesis
      using that by (auto simp: i1 takeWhile_nth dest: set_takeWhileD)
  qed
  show "t < xs ! ?i1" if "?i1 < length xs"
    using nth_length_takeWhile [of "\<lambda>x. x \<le> t" xs] that by (simp add: i1 not_le)
qed

lemma find_index1_unique:
  assumes "j \<le> length xs" and "\<And>i. i < j \<Longrightarrow> xs ! i \<le> t" and "j < length xs \<Longrightarrow> t < xs ! j"
  shows "find_index1 t xs 0 = j"
proof -
  let ?i1 = "find_index1 t xs 0"
  note p = find_index1_props [where t = t and xs = xs]
  have "\<not> ?i1 < j"
  proof
    assume l: "?i1 < j"
    with assms(1) have "?i1 < length xs" by simp
    from p(3) [OF this] assms(2) [OF l] show False by simp
  qed
  moreover have "\<not> j < ?i1"
  proof
    assume l: "j < ?i1"
    with p(1) have "j < length xs" by simp
    from assms(3) [OF this] p(2) [OF l] show False by simp
  qed
  ultimately show ?thesis by simp
qed

lemma profile_blend_value:
  assumes "0 \<le> k" "k < kmax g"
  shows "fold (\<lambda>k prof. prof(k + kgc g := fac0 * tab (index0 * kmax g + k) + fac1 * tab (index1 * kmax g + k)))
           (loop_range 0 (kmax g)) prof (k + kgc g)
         = fac0 * tab (index0 * kmax g + k) + fac1 * (tab (index1 * kmax g + k) :: real)"
proof -
  have k: "k \<in> set (loop_range 0 (kmax g))"
    using assms by simp
  show ?thesis
    by (rule trans [OF fold_obs_last [where obs = "\<lambda>p. p (k + kgc g)" and c = k, OF distinct_loop_range k]])
       auto
qed

lemma updateTimeDepProfs_loop_keeps:
  assumes "\<forall>n\<in>set names. tdd (n @ ''ls'') \<noteq> None \<longrightarrow> lsp n \<noteq> None"
    and "tdd (name @ ''ls'') = Some tab" and "0 \<le> k" "k < kmax g"
    and "\<exists>prof. lsp name = Some prof \<and>
           prof (k + kgc g) = fac0 * tab (index0 * kmax g + k) + fac1 * tab (index1 * kmax g + k)"
  shows "\<exists>lsp' prof'. updateTimeDepProfs_loop g tdd fac0 fac1 index0 index1 names lsp = Some lsp' \<and>
           lsp' name = Some prof' \<and>
           prof' (k + kgc g) = fac0 * tab (index0 * kmax g + k) + fac1 * tab (index1 * kmax g + k)"
  using assms(1,5)
proof (induction names arbitrary: lsp)
  case Nil
  then show ?case by simp
next
  case (Cons it rest)
  show ?case
  proof (cases "tdd (it @ ''ls'')")
    case None
    with Cons show ?thesis by simp
  next
    case (Some it2)
    with Cons.prems(1) obtain prof where prof: "lsp it = Some prof" by auto
    let ?new = "fold (\<lambda>k prof. prof(k + kgc g := fac0 * it2 (index0 * kmax g + k) + fac1 * it2 (index1 * kmax g + k)))
           (loop_range 0 (kmax g)) prof"
    let ?lsp = "lsp(it \<mapsto> ?new)"
    have 1: "\<forall>n\<in>set rest. tdd (n @ ''ls'') \<noteq> None \<longrightarrow> ?lsp n \<noteq> None"
      using Cons.prems(1) by simp
    have 2: "\<exists>prof. ?lsp name = Some prof \<and>
           prof (k + kgc g) = fac0 * tab (index0 * kmax g + k) + fac1 * tab (index1 * kmax g + k)"
    proof (cases "it = name")
      case True
      with Some assms(2) have "it2 = tab" by simp
      with True show ?thesis
        using profile_blend_value [OF assms(3,4)] by simp
    next
      case False
      with Cons.prems(2) show ?thesis by simp
    qed
    from Cons.IH [where lsp = ?lsp, OF 1 2] show ?thesis
      using Some prof assms(3,4) by (simp add: Let_def del: fun_upd_apply)
  qed
qed

lemma updateTimeDepProfs_loop_value:
  assumes "\<forall>n\<in>set names. tdd (n @ ''ls'') \<noteq> None \<longrightarrow> lsp n \<noteq> None"
    and "name \<in> set names" and "tdd (name @ ''ls'') = Some tab" and "0 \<le> k" "k < kmax g"
  shows "\<exists>lsp' prof'. updateTimeDepProfs_loop g tdd fac0 fac1 index0 index1 names lsp = Some lsp' \<and>
           lsp' name = Some prof' \<and>
           prof' (k + kgc g) = fac0 * tab (index0 * kmax g + k) + fac1 * tab (index1 * kmax g + k)"
  using assms(1,2)
proof (induction names arbitrary: lsp)
  case Nil
  then show ?case by simp
next
  case (Cons it rest)
  show ?case
  proof (cases "it = name")
    case True
    from Cons.prems(1) True assms(3) obtain prof where prof: "lsp name = Some prof" by auto
    let ?new = "fold (\<lambda>k prof. prof(k + kgc g := fac0 * tab (index0 * kmax g + k) + fac1 * tab (index1 * kmax g + k)))
           (loop_range 0 (kmax g)) prof"
    let ?lsp = "lsp(name \<mapsto> ?new)"
    have 1: "\<forall>n\<in>set rest. tdd (n @ ''ls'') \<noteq> None \<longrightarrow> ?lsp n \<noteq> None"
      using Cons.prems(1) by simp
    have 2: "\<exists>prof. ?lsp name = Some prof \<and>
           prof (k + kgc g) = fac0 * tab (index0 * kmax g + k) + fac1 * tab (index1 * kmax g + k)"
      using profile_blend_value [OF assms(4,5)] by simp
    from updateTimeDepProfs_loop_keeps [where lsp = ?lsp, OF 1 assms(3,4,5) 2] show ?thesis
      using True prof assms(3,4,5) by (simp add: Let_def del: fun_upd_apply)
  next
    case False
    with Cons.prems(2) have name: "name \<in> set rest" by simp
    show ?thesis
    proof (cases "tdd (it @ ''ls'')")
      case None
      from Cons.IH [OF _ name, of lsp] Cons.prems(1) None show ?thesis by simp
    next
      case (Some it2)
      with Cons.prems(1) obtain prof where prof: "lsp it = Some prof" by auto
      let ?new = "fold (\<lambda>k prof. prof(k + kgc g := fac0 * it2 (index0 * kmax g + k) + fac1 * it2 (index1 * kmax g + k)))
           (loop_range 0 (kmax g)) prof"
      have 1: "\<forall>n\<in>set rest. tdd (n @ ''ls'') \<noteq> None \<longrightarrow> (lsp(it \<mapsto> ?new)) n \<noteq> None"
        using Cons.prems(1) by simp
      from Cons.IH [where lsp = "lsp(it \<mapsto> ?new)", OF 1 name] show ?thesis
        using Some prof assms(4,5) by (simp add: Let_def del: fun_upd_apply)
    qed
  qed
qed

lemma updateTimeDepProfs_value:
  assumes "\<forall>n\<in>set (lslist F). timedepdata F (n @ ''ls'') \<noteq> None \<longrightarrow> lsprofs F n \<noteq> None"
    and "name \<in> set (lslist F)" and "timedepdata F (name @ ''ls'') = Some tab"
    and "0 \<le> k" "k < kmax g"
  shows "\<exists>F' prof'. updateTimeDepProfs g F fac0 fac1 (int index0) (int index1) = Some F' \<and>
           lsprofs F' name = Some prof' \<and>
           prof' (k + kgc g) = fac0 * table_row g tab index0 k + fac1 * table_row g tab index1 k"
  using updateTimeDepProfs_loop_value [OF assms, where ?fac0.0 = fac0 and ?fac1.0 = fac1
      and ?index0.0 = "int index0" and ?index1.0 = "int index1"]
  by (auto simp: updateTimeDepProfs_def table_row_def)

text \<open>
  Claim C6, as amended. Let \<open>ts\<close> be the shared time vector, monotone (non-decreasing)
  and of length \<open>T > 0\<close>, and let \<open>tab\<close> be the table of an active profile \<open>name\<close>: a name
  of \<^verbatim>\<open>lslist\<close> with a table in \<^verbatim>\<open>timedepdata\<close>. Then \<open>updateTimeDep\<close> at time \<open>t\<close> returns,
  and the profile it leaves at level \<open>k + kgc\<close>, for \<open>k\<close> in \<open>[0, kmax)\<close>, is row 0 of the
  table when \<open>t < ts[0]\<close>, row \<open>T - 1\<close> when \<open>t \<ge> ts[T-1]\<close>, and otherwise the blend
  \<open>w0 * row (i1 - 1) + w1 * row i1\<close> with \<open>i1\<close> the smallest index such that \<open>ts[i1] > t\<close>,
  \<open>w0 = (ts[i1] - t) / \<Delta>\<close>, \<open>w1 = (t - ts[i1-1]) / \<Delta>\<close> and \<open>\<Delta> = ts[i1] - ts[i1-1]\<close>, which is
  linear in \<open>t\<close> between two consecutive times. In particular at \<open>t = ts[0]\<close> the profile
  is row \<open>m\<close>, where \<open>m\<close> is the last index with \<open>ts[m] = ts[0]\<close>: it is row 0 when \<open>T = 1\<close> or
  \<open>ts[0] < ts[1]\<close>.
\<close>

theorem updateTimeDep_interpolation:
  assumes sw: "swtimedep F \<noteq> ''0''"
    and sorted: "sorted (timedeptime F)" and ne: "timedeptime F \<noteq> []"
    and alloc: "\<forall>n\<in>set (lslist F). timedepdata F (n @ ''ls'') \<noteq> None \<longrightarrow> lsprofs F n \<noteq> None"
    and name: "name \<in> set (lslist F)" and tab: "timedepdata F (name @ ''ls'') = Some tab"
    and k: "0 \<le> k" "k < kmax g"
    and ts: "ts = timedeptime F" and T: "T = length ts"
  shows "\<exists>F' prof'. updateTimeDep g F t = Some F' \<and> lsprofs F' name = Some prof' \<and>
     (t < ts ! 0 \<longrightarrow> prof' (k + kgc g) = table_row g tab 0 k) \<and>
     (ts ! (T - 1) \<le> t \<longrightarrow> prof' (k + kgc g) = table_row g tab (T - 1) k) \<and>
     (\<forall>i1. 0 < i1 \<and> i1 < T \<and> t < ts ! i1 \<and> (\<forall>i<i1. ts ! i \<le> t) \<longrightarrow>
        prof' (k + kgc g) =
          (ts ! i1 - t) / (ts ! i1 - ts ! (i1 - 1)) * table_row g tab (i1 - 1) k
        + (t - ts ! (i1 - 1)) / (ts ! i1 - ts ! (i1 - 1)) * table_row g tab i1 k) \<and>
     (\<forall>m. t = ts ! 0 \<and> m < T \<and> ts ! m = ts ! 0 \<and> (\<forall>i. m < i \<and> i < T \<longrightarrow> ts ! 0 < ts ! i) \<longrightarrow>
        prof' (k + kgc g) = table_row g tab m k)"
proof -
  define i1 where "i1 = find_index1 t ts 0"
  note p = find_index1_props [where t = t and xs = ts, folded i1_def]
  have T0: "0 < T"
    using ne by (simp add: T ts)
  have le: "ts ! i \<le> ts ! j" if "i \<le> j" "j < T" for i j
    using sorted that by (simp add: sorted_nth_mono T ts)
  have uniq: "j = i1" if "j < T" "t < ts ! j" "\<forall>i<j. ts ! i \<le> t" for j
    using find_index1_unique [of j ts t] that by (simp add: i1_def T)
  have after: "i1 = m + 1"
    if "t = ts ! 0 \<and> m < T \<and> ts ! m = ts ! 0 \<and> (\<forall>i. m < i \<and> i < T \<longrightarrow> ts ! 0 < ts ! i)" for m
  proof -
    have "find_index1 t ts 0 = m + 1"
    proof (rule find_index1_unique)
      show "m + 1 \<le> length ts"
        using that by (simp add: T)
      show "ts ! i \<le> t" if "i < m + 1" for i
        using le [of i m] that \<open>t = ts ! 0 \<and> m < T \<and> ts ! m = ts ! 0 \<and> _\<close> by simp
      show "t < ts ! (m + 1)" if "m + 1 < length ts"
        using that \<open>t = ts ! 0 \<and> m < T \<and> ts ! m = ts ! 0 \<and> _\<close> by (simp add: T)
    qed
    then show ?thesis by (simp add: i1_def)
  qed
  consider (first) "i1 = 0" | (last) "i1 = T" | (mid) "0 < i1" "i1 < T"
    using p(1) by (cases "i1 = 0"; cases "i1 = T") (auto simp: T)
  then show ?thesis
  proof cases
    case first
    then have upd: "updateTimeDep g F t = updateTimeDepProfs g F 0 1 (int 0) (int 0)"
      using sw by (simp add: updateTimeDep_def Let_def i1_def ts)
    from first T0 p(3) have t0: "t < ts ! 0"
      by (simp add: T)
    from updateTimeDepProfs_value [OF alloc name tab k, where ?fac0.0 = 0 and ?fac1.0 = 1 and ?index0.0 = 0 and ?index1.0 = 0]
    obtain F' prof'
      where r: "updateTimeDepProfs g F 0 1 (int 0) (int 0) = Some F'" "lsprofs F' name = Some prof'"
        "prof' (k + kgc g) = table_row g tab 0 k"
      by auto
    have "ts ! 0 \<le> ts ! (T - 1)"
      by (rule le) (use T0 in auto)
    with t0 have c2: "\<not> ts ! (T - 1) \<le> t"
      by linarith
    have c3: "\<not> (0 < j \<and> j < T \<and> t < ts ! j \<and> (\<forall>i<j. ts ! i \<le> t))" for j
    proof
      assume "0 < j \<and> j < T \<and> t < ts ! j \<and> (\<forall>i<j. ts ! i \<le> t)"
      then have "ts ! 0 \<le> t" by blast
      with t0 show False by linarith
    qed
    have c4: "\<not> (t = ts ! 0 \<and> m < T \<and> ts ! m = ts ! 0 \<and> (\<forall>i. m < i \<and> i < T \<longrightarrow> ts ! 0 < ts ! i))" for m
      using t0 by linarith
    show ?thesis
      unfolding upd
      by (intro exI [of _ F'] exI [of _ prof'] conjI impI allI)
         (use r c2 c3 c4 in \<open>simp_all\<close>)
  next
    case last
    then have upd: "updateTimeDep g F t = updateTimeDepProfs g F 1 0 (int (T - 1)) (int (T - 1))"
      using sw T0 by (simp add: updateTimeDep_def Let_def i1_def ts T)
    from last p(2) have all: "ts ! i \<le> t" if "i < T" for i
      using that by simp
    from updateTimeDepProfs_value [OF alloc name tab k, where ?fac0.0 = 1 and ?fac1.0 = 0 and ?index0.0 = "T - 1" and ?index1.0 = "T - 1"]
    obtain F' prof'
      where r: "updateTimeDepProfs g F 1 0 (int (T - 1)) (int (T - 1)) = Some F'"
        "lsprofs F' name = Some prof'" "prof' (k + kgc g) = table_row g tab (T - 1) k"
      by auto
    have c1: "\<not> t < ts ! 0"
      using all [of 0] T0 by simp
    have c3: "\<not> (0 < j \<and> j < T \<and> t < ts ! j \<and> (\<forall>i<j. ts ! i \<le> t))" for j
    proof
      assume a: "0 < j \<and> j < T \<and> t < ts ! j \<and> (\<forall>i<j. ts ! i \<le> t)"
      then have "ts ! j \<le> t" by (intro all) simp
      with a show False by linarith
    qed
    have c4: "prof' (k + kgc g) = table_row g tab m k"
      if "t = ts ! 0 \<and> m < T \<and> ts ! m = ts ! 0 \<and> (\<forall>i. m < i \<and> i < T \<longrightarrow> ts ! 0 < ts ! i)" for m
    proof -
      from after [OF that] last have "m = T - 1" by simp
      then show ?thesis by (simp only: r(3))
    qed
    show ?thesis
      unfolding upd
      by (intro exI [of _ F'] exI [of _ prof'] conjI impI allI)
         (use r c1 c3 c4 in \<open>simp_all\<close>)
  next
    case mid
    let ?d = "ts ! i1 - ts ! (i1 - 1)"
    let ?fac0 = "(ts ! i1 - t) / ?d" and ?fac1 = "(t - ts ! (i1 - 1)) / ?d"
    have upd: "updateTimeDep g F t = updateTimeDepProfs g F ?fac0 ?fac1 (int (i1 - 1)) (int i1)"
      using sw mid by (simp add: updateTimeDep_def Let_def i1_def [symmetric] ts [symmetric] T [symmetric])
    from mid p(2,3) have lo: "ts ! (i1 - 1) \<le> t" and hi: "t < ts ! i1"
      by (simp_all add: T)
    from updateTimeDepProfs_value [OF alloc name tab k, where ?fac0.0 = ?fac0 and ?fac1.0 = ?fac1 and ?index0.0 = "i1 - 1" and ?index1.0 = i1]
    obtain F' prof'
      where r: "updateTimeDepProfs g F ?fac0 ?fac1 (int (i1 - 1)) (int i1) = Some F'"
        "lsprofs F' name = Some prof'"
        "prof' (k + kgc g) = ?fac0 * table_row g tab (i1 - 1) k + ?fac1 * table_row g tab i1 k"
      by auto
    have "ts ! 0 \<le> ts ! (i1 - 1)"
      by (rule le) (use mid in auto)
    with lo have c1: "\<not> t < ts ! 0"
      by linarith
    have "ts ! i1 \<le> ts ! (T - 1)"
      by (rule le) (use mid in auto)
    with hi have c2: "\<not> ts ! (T - 1) \<le> t"
      by linarith
    have c3: "prof' (k + kgc g) =
          (ts ! j - t) / (ts ! j - ts ! (j - 1)) * table_row g tab (j - 1) k
        + (t - ts ! (j - 1)) / (ts ! j - ts ! (j - 1)) * table_row g tab j k"
      if "0 < j \<and> j < T \<and> t < ts ! j \<and> (\<forall>i<j. ts ! i \<le> t)" for j
    proof -
      from that have "j = i1" by (intro uniq) blast+
      then show ?thesis by (simp only: r(3))
    qed
    have c4: "prof' (k + kgc g) = table_row g tab m k"
      if "t = ts ! 0 \<and> m < T \<and> ts ! m = ts ! 0 \<and> (\<forall>i. m < i \<and> i < T \<longrightarrow> ts ! 0 < ts ! i)" for m
    proof -
      from after [OF that] have m: "i1 - 1 = m" by simp
      from that have tm: "ts ! m = t" by simp
      from r(3) have "prof' (k + kgc g) =
          (ts ! i1 - t) / (ts ! i1 - t) * table_row g tab m k
        + (t - t) / (ts ! i1 - t) * table_row g tab i1 k"
        by (simp only: m tm)
      also have "\<dots> = table_row g tab m k"
        using hi by simp
      finally show ?thesis .
    qed
    show ?thesis
      unfolding upd
      by (intro exI [of _ F'] exI [of _ prof'] conjI impI allI)
         (use r(1,2) c1 c2 c3 c4 in \<open>simp_all\<close>)
  qed
qed

theorem updateTimeDep_interpolation_witness:
  "\<exists>F' prof'. updateTimeDep (ex_grid\<lparr>kmax := 3\<rparr>) ex_force_timedep (5 / 2) = Some F' \<and>
     lsprofs F' ''s'' = Some prof' \<and> prof' 3 = 1 / 2"
proof -
  have h: "swtimedep ex_force_timedep \<noteq> ''0''"
    "sorted (timedeptime ex_force_timedep)"
    "timedeptime ex_force_timedep \<noteq> []"
    "\<forall>n\<in>set (lslist ex_force_timedep).
        timedepdata ex_force_timedep (n @ ''ls'') \<noteq> None \<longrightarrow> lsprofs ex_force_timedep n \<noteq> None"
    "''s'' \<in> set (lslist ex_force_timedep)"
    "timedepdata ex_force_timedep (''s'' @ ''ls'') = Some (\<lambda>n. if n < 3 then 0 else of_int (n - 3))"
    "(0::int) \<le> 2" "2 < kmax (ex_grid\<lparr>kmax := 3\<rparr>)"
    "[0, 10] = timedeptime ex_force_timedep" "2 = length [0, 10 :: real]"
    by (simp_all add: ex_force_timedep_def)
  show ?thesis
    using updateTimeDep_interpolation [OF h, of "5 / 2"]
    apply (elim exE conjE)
    subgoal for F' prof'
      apply (drule spec [of _ 1])
      apply (rule exI [of _ F'], rule exI [of _ prof'])
      apply (simp add: table_row_def ex_grid_def)
      done
    done
qed


text \<open>
  The claim C6 as the spec states it, with the profile equal to row 0 at \<open>t = ts[0]\<close>
  for every monotone time vector, fails when the first time is repeated: with the times
  \<open>{0, 0, 10}\<close> and rows 1, 2 and 3, at \<open>t = 0\<close> the search stops at index 2, the weights
  are \<open>(1, 0)\<close> on the rows 1 and 2, and the profile is row 1.
\<close>

theorem updateTimeDep_interpolation_counterexample:
  "sorted (timedeptime ex_force_repeat) \<and> timedeptime ex_force_repeat ! 0 = 0 \<and>
   timedepdata ex_force_repeat ''sls'' = Some ex_table_repeat \<and>
   table_row (ex_grid\<lparr>kmax := 3\<rparr>) ex_table_repeat 0 2 = 1 \<and>
   table_row (ex_grid\<lparr>kmax := 3\<rparr>) ex_table_repeat 1 2 = 2 \<and>
   (case updateTimeDep (ex_grid\<lparr>kmax := 3\<rparr>) ex_force_repeat 0 of
      Some F' \<Rightarrow> (case lsprofs F' ''s'' of
                    Some prof' \<Rightarrow> prof' (2 + kgc (ex_grid\<lparr>kmax := 3\<rparr>)) = 2
                  | None \<Rightarrow> False)
    | None \<Rightarrow> False)"
proof -
  let ?g = "ex_grid\<lparr>kmax := 3\<rparr>"
  have upd: "updateTimeDep ?g ex_force_repeat 0 = updateTimeDepProfs ?g ex_force_repeat 1 0 (int 1) (int 2)"
    by (simp add: updateTimeDep_def Let_def ex_force_repeat_def ex_force_timedep_def)
  have h: "\<forall>n\<in>set (lslist ex_force_repeat).
        timedepdata ex_force_repeat (n @ ''ls'') \<noteq> None \<longrightarrow> lsprofs ex_force_repeat n \<noteq> None"
    "''s'' \<in> set (lslist ex_force_repeat)"
    "timedepdata ex_force_repeat (''s'' @ ''ls'') = Some ex_table_repeat"
    "(0::int) \<le> 2" "2 < kmax ?g"
    by (simp_all add: ex_force_repeat_def ex_force_timedep_def)
  have row: "table_row ?g ex_table_repeat 0 2 = 1" "table_row ?g ex_table_repeat 1 2 = 2"
    by (simp_all add: table_row_def ex_table_repeat_def)
  from updateTimeDepProfs_value [OF h, where ?fac0.0 = 1 and ?fac1.0 = 0 and ?index0.0 = 1 and ?index1.0 = 2]
  obtain F' prof' where r: "updateTimeDepProfs ?g ex_force_repeat 1 0 (int 1) (int 2) = Some F'"
      "lsprofs F' ''s'' = Some prof'"
      and "prof' (2 + kgc ?g) =
             1 * table_row ?g ex_table_repeat 1 2 + 0 * table_row ?g ex_table_repeat 2 2"
    by blast
  then have r3: "prof' (2 + kgc ?g) = 2"
    by (simp add: table_row_def ex_table_repeat_def)
  have "sorted (timedeptime ex_force_repeat)" "timedeptime ex_force_repeat ! 0 = 0"
    "timedepdata ex_force_repeat ''sls'' = Some ex_table_repeat"
    by (simp_all add: ex_force_repeat_def ex_force_timedep_def)
  with row r r3 show ?thesis
    by (simp add: upd)
qed

section \<open>Forcing: the modes of exec\<close>

lemma exec_wls_map:
  assumes "\<forall>(name, f)\<in>set st. map_of sp name \<noteq> None"
  shows "exec_wls g sp wls dzhi st =
     Some (map (\<lambda>(name, f).
        (name, f\<lparr>data := advec_wls_2nd g (data f) (datamean (the (map_of sp name))) wls dzhi\<rparr>)) st)"
  using assms by (induction st) auto

lemma kernels_ignore_swwls:
  "calcFlux g (F\<lparr>swwls := x\<rparr>) = calcFlux g F"
  "calcCoriolis_2nd g (F\<lparr>swwls := x\<rparr>) = calcCoriolis_2nd g F"
  "calcCoriolis_4th g O4 (F\<lparr>swwls := x\<rparr>) = calcCoriolis_4th g O4 F"
  by (intro ext, simp add: calcFlux_def calcFlux_fbody_def calcCoriolis_2nd_def calcCoriolis_4th_def)+

lemma exec_swwls_split:
  "exec g O4 F others_u others_ut fl dt =
     (case exec g O4 (F\<lparr>swwls := ''0''\<rparr>) others_u others_ut fl dt of
        None \<Rightarrow> None
      | Some fl0 \<Rightarrow>
          if swwls F = ''1''
          then (case exec_wls g (fields_sp fl0) (force_wls F) (grid_dzhi g) (fields_st fl0) of
                  None \<Rightarrow> None
                | Some st' \<Rightarrow> Some (fl0\<lparr>fields_st := st'\<rparr>))
          else Some fl0)"
  unfolding exec_def Let_def
  by (simp add: kernels_ignore_swwls cong: if_cong split: option.splits)

text \<open>
  Claim C10. When \<^verbatim>\<open>swwls = "1"\<close>, \<open>exec\<close> applies the subsidence advection to every entry
  of the tendency map \<^verbatim>\<open>fields->st\<close>, whether its name is in \<^verbatim>\<open>lslist\<close> or not, each with
  the mean profile of the scalar of the same name in \<^verbatim>\<open>fields->sp\<close>; and this mode
  modifies nothing else: with \<open>fl0\<close> the fields that the other modes alone produce (the
  same call with \<^verbatim>\<open>swwls = "0"\<close>), the call returns \<open>fl0\<close> with only the tendency map
  rewritten, so \<open>ut\<close>, \<open>vt\<close> and \<open>wt\<close> are those of \<open>fl0\<close>.
\<close>

theorem exec_subsidence_all_scalars:
  assumes "swwls F = ''1''"
    and "exec g O4 (F\<lparr>swwls := ''0''\<rparr>) others_u others_ut fl dt = Some fl0"
    and "\<forall>(name, f)\<in>set (fields_st fl0). map_of (fields_sp fl0) name \<noteq> None"
  shows "\<exists>fl'. exec g O4 F others_u others_ut fl dt = Some fl' \<and>
     fl' = fl0\<lparr>fields_st := map (\<lambda>(name, f).
        (name, f\<lparr>data := advec_wls_2nd g (data f) (datamean (the (map_of (fields_sp fl0) name)))
                          (force_wls F) (grid_dzhi g)\<rparr>)) (fields_st fl0)\<rparr> \<and>
     fields_ut fl' = fields_ut fl0 \<and> fields_vt fl' = fields_vt fl0 \<and> fields_wt fl' = fields_wt fl0"
  by (subst exec_swwls_split) (simp add: assms(1,2) exec_wls_map [OF assms(3)])

theorem exec_subsidence_all_scalars_witness:
  "swwls ex_force_wls = ''1'' \<and>
   exec ex_grid \<lparr>ci0 = 0, ci1 = 0, ci2 = 0, ci3 = 0\<rparr> ex_force_wls [] [] ex_fields 1 =
     Some (ex_fields\<lparr>fields_st := [(''s'', \<lparr>data =
        advec_wls_2nd ex_grid (\<lambda>n. 0) (\<lambda>k. of_int k) (\<lambda>k. 1) (\<lambda>k. 1 / 2), datamean = (\<lambda>k. 0)\<rparr>)]\<rparr>)"
proof -
  have 1: "swwls ex_force_wls = ''1''"
    by (simp add: ex_force_wls_def)
  have 2: "exec ex_grid \<lparr>ci0 = 0, ci1 = 0, ci2 = 0, ci3 = 0\<rparr> (ex_force_wls\<lparr>swwls := ''0''\<rparr>) [] []
             ex_fields 1 = Some ex_fields"
    by (simp add: exec_def ex_force_wls_def)
  have 3: "\<forall>(name, f)\<in>set (fields_st ex_fields). map_of (fields_sp ex_fields) name \<noteq> None"
    by (simp add: ex_fields_def)
  from exec_subsidence_all_scalars [OF 1 2 3] show ?thesis
    by (simp add: 1) (simp add: ex_fields_def ex_force_wls_def ex_grid_def)
qed

section \<open>Fourth-order pressure solver: the ghost rows of the column solve\<close>

lemma slab_offset_range:
  fixes i j ib js :: int
  assumes "0 \<le> i" "i < ib" "0 \<le> j" "j < js"
  shows "0 \<le> i + j * ib" and "i + j * ib < ib * js"
proof -
  have "j * ib \<le> (js - 1) * ib"
    using assms by (intro mult_right_mono) auto
  moreover have "0 \<le> j * ib"
    using assms by simp
  ultimately show "0 \<le> i + j * ib" and "i + j * ib < ib * js"
    using assms by (simp_all add: algebra_simps)
qed

lemma in_slab: "(j, i) \<in> set (slab g js) \<longleftrightarrow> 0 \<le> j \<and> j < js \<and> 0 \<le> i \<and> i < iblock g"
  by (auto simp: slab_def)

lemma distinct_slab: "distinct (slab g js)"
  by (simp add: slab_def distinct_product)

lemma row_offset_neq:
  fixes x y r s K :: int
  assumes "0 \<le> x" "x < K" "0 \<le> y" "y < K" "x \<noteq> y \<or> r \<noteq> s"
  shows "x + r * K \<noteq> y + s * K"
  using digit_unique [of x K y r s] assms by auto

lemma slab_fold_frame:
  assumes "\<And>j i s. 0 \<le> j \<Longrightarrow> j < js \<Longrightarrow> 0 \<le> i \<Longrightarrow> i < iblock g \<Longrightarrow> obs (body (j, i) s) = obs s"
  shows "obs (fold body (slab g js) s) = obs s"
proof (rule fold_obs_frame)
  fix c s assume c: "c \<in> set (slab g js)"
  obtain j i where [simp]: "c = (j, i)" by (cases c)
  from c show "obs (body c s) = obs s"
    by (simp add: in_slab assms)
qed

lemma slab_fold_once:
  assumes c: "0 \<le> j" "j < js" "0 \<le> i" "i < iblock g"
    and dep: "\<And>s s'. obs s = obs s' \<Longrightarrow> obs (body (j, i) s) = obs (body (j, i) s')"
    and frame: "\<And>j' i' s. 0 \<le> j' \<Longrightarrow> j' < js \<Longrightarrow> 0 \<le> i' \<Longrightarrow> i' < iblock g \<Longrightarrow>
                  i' + j' * iblock g \<noteq> i + j * iblock g \<Longrightarrow> obs (body (j', i') s) = obs s"
  shows "obs (fold body (slab g js) s) = obs (body (j, i) s)"
proof (rule fold_obs_last [OF distinct_slab])
  show "(j, i) \<in> set (slab g js)"
    using c by (simp add: in_slab)
next
  fix c' s assume c': "c' \<in> set (slab g js)" "c' \<noteq> (j, i)"
  obtain j' i' where [simp]: "c' = (j', i')" by (cases c')
  from c' have r: "0 \<le> j'" "j' < js" "0 \<le> i'" "i' < iblock g"
    by (simp_all add: in_slab)
  have "i' + j' * iblock g \<noteq> i + j * iblock g"
  proof
    assume "i' + j' * iblock g = i + j * iblock g"
    from digit_unique [OF r(3,4) c(3,4) this] c'(2) show False by simp
  qed
  from frame [OF r this] show "obs (body c' s) = obs s" by simp
qed (rule dep)

lemma solve_bottom0_row:
  assumes "0 \<le> j" "j < js" "0 \<le> i" "i < iblock g"
  shows "coeffs (solve_bottom0 g js t) (i + j * iblock g) = (0, 0, 0, 1, 0, 0, - 1)"
  unfolding solve_bottom0_def Let_def fold_nest2 slab_def [symmetric]
  by (rule trans [OF slab_fold_once [where obs = "\<lambda>t. coeffs t (i + j * iblock g)", OF assms]])
     (simp_all add: coeffs_def)


lemma slab_offsets_neq:
  fixes x y A ib js :: int
  assumes "0 \<le> x" "x < ib * js" "0 \<le> y" "y < ib * js"
  shows "x + A + 2 * ib * js \<noteq> y + A + 3 * ib * js"
    and "x + A + 3 * ib * js \<noteq> y + A + 2 * ib * js"
proof -
  have e: "2 * ib * js = 2 * (ib * js)" "3 * ib * js = 3 * (ib * js)"
    by simp_all
  show "x + A + 2 * ib * js \<noteq> y + A + 3 * ib * js"
    unfolding e using assms by linarith
  show "x + A + 3 * ib * js \<noteq> y + A + 2 * ib * js"
    unfolding e using assms by linarith
qed

lemma solve_bottom1_row:
  assumes "0 \<le> j" "j < js" "0 \<le> i" "i < iblock g"
  shows "coeffs (solve_bottom1 g js t) (i + j * iblock g + 1 * iblock g * js) = (0, 0, 0, 1, - 1, 0, 0)"
  unfolding solve_bottom1_def Let_def fold_nest2 slab_def [symmetric]
  by (rule trans [OF slab_fold_once [where obs = "\<lambda>t. coeffs t (i + j * iblock g + 1 * iblock g * js)", OF assms]])
     (simp_all add: coeffs_def)

lemma solve_top_rest_rows:
  assumes "0 \<le> j" "j < js" "0 \<le> i" "i < iblock g"
    and "n = i + j * iblock g + kmax g * (1 * iblock g * js) + 2 * iblock g * js \<or>
         n = i + j * iblock g + kmax g * (1 * iblock g * js) + 3 * iblock g * js"
  shows "coeffs (solve_top_rest g js t) n = (m1temp t n, m2temp t n, m3temp t n, m4temp t n, 0, 0, 0)"
  unfolding solve_top_rest_def Let_def fold_nest2 slab_def [symmetric]
  apply (rule trans [OF slab_fold_once [where obs = "\<lambda>t. coeffs t n", OF assms(1-4)]])
  subgoal by (auto simp: coeffs_def)
  subgoal premises prems for j' i' s
    using prems assms(5) slab_offset_range [OF assms(3,4,1,2)] slab_offset_range [OF prems(3,4,1,2)]
      slab_offsets_neq [of "i + j * iblock g" "iblock g" js "i' + j' * iblock g" "kmax g * (1 * iblock g * js)"]
      slab_offsets_neq [of "i' + j' * iblock g" "iblock g" js "i + j * iblock g" "kmax g * (1 * iblock g * js)"]
    by (auto simp: coeffs_def)
  subgoal
    using assms(5) by (auto simp: coeffs_def)
  done


lemma solve_top_rows:
  assumes "0 \<le> j" "j < js" "0 \<le> i" "i < iblock g"
    and "zero \<longleftrightarrow> mpicoordy ms * iblock g + i = 0 \<and> mpicoordx ms * jblock g + n * js + j = 0"
    and "n2 = i + j * iblock g + kmax g * (1 * iblock g * js) + 2 * iblock g * js"
    and "n3 = i + j * iblock g + kmax g * (1 * iblock g * js) + 3 * iblock g * js"
    and "t' = solve_top g ms js n t"
  shows "(m1temp t' n2, m2temp t' n2, m3temp t' n2, m4temp t' n2) =
           (if zero then (0, - 1 / 3, 2, 1) else (0, 0, - 1, 1))"
    and "(m1temp t' n3, m2temp t' n3, m3temp t' n3, m4temp t' n3) =
           (if zero then (- 2, 9, 0, 1) else (- 1, 0, 0, 1))"
  unfolding assms(8) solve_top_def Let_def fold_nest2 slab_def [symmetric]
  subgoal
    apply (rule trans [OF slab_fold_once [where obs = "\<lambda>t. (m1temp t n2, m2temp t n2, m3temp t n2, m4temp t n2)",
            OF assms(1-4)]])
    subgoal by (auto simp: assms(6))
    subgoal premises prems for j' i' s
      using prems assms(6) slab_offset_range [OF assms(3,4,1,2)] slab_offset_range [OF prems(3,4,1,2)]
        slab_offsets_neq [of "i + j * iblock g" "iblock g" js "i' + j' * iblock g" "kmax g * (1 * iblock g * js)"]
      by auto
    subgoal
      using slab_offset_range [OF assms(3,4,1,2)]
        slab_offsets_neq [of "i + j * iblock g" "iblock g" js "i + j * iblock g" "kmax g * (1 * iblock g * js)"]
      by (auto simp: assms(5,6))
    done
  subgoal
    apply (rule trans [OF slab_fold_once [where obs = "\<lambda>t. (m1temp t n3, m2temp t n3, m3temp t n3, m4temp t n3)",
            OF assms(1-4)]])
    subgoal by (auto simp: assms(7))
    subgoal premises prems for j' i' s
      using prems assms(7) slab_offset_range [OF assms(3,4,1,2)] slab_offset_range [OF prems(3,4,1,2)]
        slab_offsets_neq [of "i' + j' * iblock g" "iblock g" js "i + j * iblock g" "kmax g * (1 * iblock g * js)"]
      by auto
    subgoal
      by (auto simp: assms(5,7))
    done
  done

lemma row_offset_neq_src:
  fixes x y R k ib js :: int
  assumes "0 \<le> x" "x < ib * js" "0 \<le> y" "y < ib * js"
  shows "R \<noteq> 0 \<Longrightarrow> x + R * (ib * js) \<noteq> y"
    and "R \<noteq> 1 \<Longrightarrow> x + R * (ib * js) \<noteq> y + 1 * ib * js"
    and "R \<noteq> k + 2 \<Longrightarrow> x + R * (ib * js) \<noteq> y + k * (1 * ib * js) + 2 * ib * js"
    and "R \<noteq> k + 3 \<Longrightarrow> x + R * (ib * js) \<noteq> y + k * (1 * ib * js) + 3 * ib * js"
  using row_offset_neq [OF assms, of R 0] row_offset_neq [OF assms, of R 1]
    row_offset_neq [OF assms, of R "k + 2"] row_offset_neq [OF assms, of R "k + 3"]
  by (simp_all add: algebra_simps)

lemma solve_bottom0_keeps:
  assumes "0 \<le> x" "x < iblock g * js" "R \<noteq> 0"
  shows "coeffs (solve_bottom0 g js t) (x + R * (iblock g * js)) = coeffs t (x + R * (iblock g * js))"
  unfolding solve_bottom0_def Let_def fold_nest2 slab_def [symmetric]
  apply (rule slab_fold_frame)
  subgoal premises prems for j i s
    using row_offset_neq_src(1) [OF assms(1,2) slab_offset_range [OF prems(3,4,1,2)] assms(3)]
    by (auto simp: coeffs_def)
  done

lemma solve_bottom1_keeps:
  assumes "0 \<le> x" "x < iblock g * js" "R \<noteq> 1"
  shows "coeffs (solve_bottom1 g js t) (x + R * (iblock g * js)) = coeffs t (x + R * (iblock g * js))"
  unfolding solve_bottom1_def Let_def fold_nest2 slab_def [symmetric]
  apply (rule slab_fold_frame)
  subgoal premises prems for j i s
    using row_offset_neq_src(2) [OF assms(1,2) slab_offset_range [OF prems(3,4,1,2)] assms(3)]
    by (auto simp: coeffs_def)
  done

lemma solve_rows_keeps:
  assumes "0 \<le> x" "x < iblock g * js" "R < 2 \<or> kmax g + 2 \<le> R"
  shows "coeffs (solve_rows g ms P p js n t) (x + R * (iblock g * js)) = coeffs t (x + R * (iblock g * js))"
  unfolding solve_rows_def Let_def fold_nest3
proof (rule fold_obs_frame)
  fix c s
  assume c: "c \<in> set (List.product (loop_range 0 (kmax g))
                 (List.product (loop_range 0 js) (loop_range 0 (iblock g))))"
  obtain k j i where [simp]: "c = (k, j, i)" by (cases c)
  from c have r: "0 \<le> k" "k < kmax g" "0 \<le> j" "j < js" "0 \<le> i" "i < iblock g"
    by simp_all
  with assms(3) have "R \<noteq> k + 2" by auto
  from row_offset_neq_src(3) [OF assms(1,2) slab_offset_range [OF r(5,6,3,4)] this]
  show "coeffs ((case c of (k, j, i) \<Rightarrow> \<lambda>t.
           t\<lparr>m1temp := (m1temp t)(i + j * iblock g + k * (1 * iblock g * js) + 2 * iblock g * js := m1 P k),
             m2temp := (m2temp t)(i + j * iblock g + k * (1 * iblock g * js) + 2 * iblock g * js := m2 P k),
             m3temp := (m3temp t)(i + j * iblock g + k * (1 * iblock g * js) + 2 * iblock g * js := m3 P k),
             m4temp := (m4temp t)(i + j * iblock g + k * (1 * iblock g * js) + 2 * iblock g * js :=
                m4 P k + pres4_bmati P (mpicoordy ms * iblock g + i) + pres4_bmatj P (mpicoordx ms * jblock g + n * js + j)),
             m5temp := (m5temp t)(i + j * iblock g + k * (1 * iblock g * js) + 2 * iblock g * js := m5 P k),
             m6temp := (m6temp t)(i + j * iblock g + k * (1 * iblock g * js) + 2 * iblock g * js := m6 P k),
             m7temp := (m7temp t)(i + j * iblock g + k * (1 * iblock g * js) + 2 * iblock g * js := m7 P k),
             ptemp := (ptemp t)(i + j * iblock g + k * (1 * iblock g * js) + 2 * iblock g * js :=
                p (i + (j + n * js) * iblock g + k * (iblock g * jblock g)))\<rparr>) s) (x + R * (iblock g * js))
        = coeffs s (x + R * (iblock g * js))"
    by (auto simp: coeffs_def)
qed

lemma solve_top_keeps:
  assumes "0 \<le> x" "x < iblock g * js" "R \<noteq> kmax g + 2" "R \<noteq> kmax g + 3"
  shows "coeffs (solve_top g ms js n t) (x + R * (iblock g * js)) = coeffs t (x + R * (iblock g * js))"
  unfolding solve_top_def Let_def fold_nest2 slab_def [symmetric]
  apply (rule slab_fold_frame)
  subgoal premises prems for j i s
    using row_offset_neq_src(3) [OF assms(1,2) slab_offset_range [OF prems(3,4,1,2)] assms(3)]
      row_offset_neq_src(4) [OF assms(1,2) slab_offset_range [OF prems(3,4,1,2)] assms(4)]
    by (auto simp: coeffs_def)
  done

lemma solve_top_rest_keeps:
  assumes "0 \<le> x" "x < iblock g * js" "R \<noteq> kmax g + 2" "R \<noteq> kmax g + 3"
  shows "coeffs (solve_top_rest g js t) (x + R * (iblock g * js)) = coeffs t (x + R * (iblock g * js))"
  unfolding solve_top_rest_def Let_def fold_nest2 slab_def [symmetric]
  apply (rule slab_fold_frame)
  subgoal premises prems for j i s
    using row_offset_neq_src(3) [OF assms(1,2) slab_offset_range [OF prems(3,4,1,2)] assms(3)]
      row_offset_neq_src(4) [OF assms(1,2) slab_offset_range [OF prems(3,4,1,2)] assms(4)]
    by (auto simp: coeffs_def)
  done


text \<open>
  Claim C5. For every column \<open>(i, j)\<close> of a slab, with \<open>ik = i + j * iblock\<close> and rows
  \<open>K = iblock * jslice\<close> apart, the work buffers handed to \<^verbatim>\<open>hdma\<close> hold: in the two bottom
  ghost rows 0 and 1 the coefficients \<open>(m4 = 1, m7 = -1)\<close> and \<open>(m4 = 1, m5 = -1)\<close>, all
  others zero; in the two top ghost rows \<open>kmax + 2\<close> and \<open>kmax + 3\<close> the pinning coefficients
  \<open>(m2 = -1/3, m3 = 2, m4 = 1)\<close> and \<open>(m1 = -2, m2 = 9, m4 = 1)\<close> when the column is the zero
  wavenumber, \<open>iindex = mpicoordy * iblock + i = 0\<close> and
  \<open>jindex = mpicoordx * jblock + n * jslice + j = 0\<close> (the MPI coordinates swapped), and the
  zero-gradient coefficients \<open>(m3 = -1, m4 = 1)\<close> and \<open>(m1 = -1, m4 = 1)\<close> for every other
  wavenumber, all others zero. The seven coefficients of a row are \<open>(m1, \<dots>, m7)\<close>.
\<close>

theorem solve_fill_ghost_rows:
  assumes "0 \<le> kmax g" and "0 \<le> j" "j < jslice" "0 \<le> i" "i < iblock g"
    and "t' = solve_fill g ms P p jslice n t"
    and "ik = i + j * iblock g" and "K = iblock g * jslice"
    and "zero \<longleftrightarrow> mpicoordy ms * iblock g + i = 0 \<and> mpicoordx ms * jblock g + n * jslice + j = 0"
  shows "coeffs t' ik = (0, 0, 0, 1, 0, 0, - 1) \<and>
         coeffs t' (ik + K) = (0, 0, 0, 1, - 1, 0, 0) \<and>
         coeffs t' (ik + (kmax g + 2) * K) =
           (if zero then (0, - 1 / 3, 2, 1, 0, 0, 0) else (0, 0, - 1, 1, 0, 0, 0)) \<and>
         coeffs t' (ik + (kmax g + 3) * K) =
           (if zero then (- 2, 9, 0, 1, 0, 0, 0) else (- 1, 0, 0, 1, 0, 0, 0))"
proof -
  define t1 where "t1 = solve_bottom0 g jslice t"
  define t2 where "t2 = solve_bottom1 g jslice t1"
  define t3 where "t3 = solve_rows g ms P p jslice n t2"
  define t4 where "t4 = solve_top g ms jslice n t3"
  have t': "t' = solve_top_rest g jslice t4"
    by (simp add: assms(6) solve_fill_def t1_def t2_def t3_def t4_def)
  note c = assms(2-5)
  have x: "0 \<le> ik" "ik < iblock g * jslice"
    using slab_offset_range [OF c(3,4,1,2)] by (simp_all add: assms(7))
  have row: "ik + R * K = ik + R * (iblock g * jslice)" for R
    by (simp add: assms(8))
  have "coeffs t' (ik + 0 * K) = coeffs t4 (ik + 0 * K)"
    unfolding t' row using assms(1) by (intro solve_top_rest_keeps x) auto
  also have "\<dots> = coeffs t3 (ik + 0 * K)"
    unfolding t4_def row using assms(1) by (intro solve_top_keeps x) auto
  also have "\<dots> = coeffs t2 (ik + 0 * K)"
    unfolding t3_def row by (intro solve_rows_keeps x) auto
  also have "\<dots> = coeffs t1 (ik + 0 * K)"
    unfolding t2_def row by (intro solve_bottom1_keeps x) auto
  also have "\<dots> = (0, 0, 0, 1, 0, 0, - 1)"
    unfolding t1_def using solve_bottom0_row [OF c] by (simp add: assms(7))
  finally have r0: "coeffs t' ik = (0, 0, 0, 1, 0, 0, - 1)"
    by simp
  have "coeffs t' (ik + 1 * K) = coeffs t4 (ik + 1 * K)"
    unfolding t' row using assms(1) by (intro solve_top_rest_keeps x) auto
  also have "\<dots> = coeffs t3 (ik + 1 * K)"
    unfolding t4_def row using assms(1) by (intro solve_top_keeps x) auto
  also have "\<dots> = coeffs t2 (ik + 1 * K)"
    unfolding t3_def row by (intro solve_rows_keeps x) auto
  also have "\<dots> = (0, 0, 0, 1, - 1, 0, 0)"
    unfolding t2_def using solve_bottom1_row [OF c, of t1] by (simp add: assms(7,8))
  finally have r1: "coeffs t' (ik + K) = (0, 0, 0, 1, - 1, 0, 0)"
    by simp
  define n2 where "n2 = i + j * iblock g + kmax g * (1 * iblock g * jslice) + 2 * iblock g * jslice"
  define n3 where "n3 = i + j * iblock g + kmax g * (1 * iblock g * jslice) + 3 * iblock g * jslice"
  have n: "ik + (kmax g + 2) * K = n2" "ik + (kmax g + 3) * K = n3"
    by (simp_all add: n2_def n3_def assms(7,8) algebra_simps)
  note top = solve_top_rows [OF c assms(9) n2_def n3_def t4_def]
  have "coeffs t' n2 = (m1temp t4 n2, m2temp t4 n2, m3temp t4 n2, m4temp t4 n2, 0, 0, 0)"
    unfolding t' by (rule solve_top_rest_rows [OF c]) (simp add: n2_def)
  with top(1) have r2: "coeffs t' n2 = (if zero then (0, - 1 / 3, 2, 1, 0, 0, 0) else (0, 0, - 1, 1, 0, 0, 0))"
    by (simp split: if_splits)
  have "coeffs t' n3 = (m1temp t4 n3, m2temp t4 n3, m3temp t4 n3, m4temp t4 n3, 0, 0, 0)"
    unfolding t' by (rule solve_top_rest_rows [OF c]) (simp add: n3_def)
  with top(2) have r3: "coeffs t' n3 = (if zero then (- 2, 9, 0, 1, 0, 0, 0) else (- 1, 0, 0, 1, 0, 0, 0))"
    by (simp split: if_splits)
  from r0 r1 r2 r3 show ?thesis
    unfolding n by blast
qed

theorem solve_fill_ghost_rows_witness:
  "coeffs (solve_fill ex_grid \<lparr>mpicoordx = 0, mpicoordy = 0\<rparr> ex_pres_4 (\<lambda>n. 0) 1 0 ex_work) 0
     = (0, 0, 0, 1, 0, 0, - 1) \<and>
   coeffs (solve_fill ex_grid \<lparr>mpicoordx = 0, mpicoordy = 0\<rparr> ex_pres_4 (\<lambda>n. 0) 1 0 ex_work) 1
     = (0, 0, 0, 1, - 1, 0, 0) \<and>
   coeffs (solve_fill ex_grid \<lparr>mpicoordx = 0, mpicoordy = 0\<rparr> ex_pres_4 (\<lambda>n. 0) 1 0 ex_work) 3
     = (0, - 1 / 3, 2, 1, 0, 0, 0) \<and>
   coeffs (solve_fill ex_grid \<lparr>mpicoordx = 0, mpicoordy = 0\<rparr> ex_pres_4 (\<lambda>n. 0) 1 0 ex_work) 4
     = (- 2, 9, 0, 1, 0, 0, 0) \<and>
   coeffs (solve_fill ex_grid \<lparr>mpicoordx = 1, mpicoordy = 0\<rparr> ex_pres_4 (\<lambda>n. 0) 1 0 ex_work) 3
     = (0, 0, - 1, 1, 0, 0, 0) \<and>
   coeffs (solve_fill ex_grid \<lparr>mpicoordx = 1, mpicoordy = 0\<rparr> ex_pres_4 (\<lambda>n. 0) 1 0 ex_work) 4
     = (- 1, 0, 0, 1, 0, 0, 0)"
proof -
  have h: "0 \<le> kmax ex_grid" "(0::int) \<le> 0" "(0::int) < 1" "0 < iblock ex_grid"
    "(0::int) = 0 + 0 * iblock ex_grid" "1 = iblock ex_grid * 1"
    by (simp_all add: ex_grid_def)
  have z: "True \<longleftrightarrow> mpicoordy \<lparr>mpicoordx = 0, mpicoordy = 0\<rparr> * iblock ex_grid + 0 = 0 \<and>
      mpicoordx \<lparr>mpicoordx = 0, mpicoordy = 0\<rparr> * jblock ex_grid + 0 * 1 + 0 = 0"
    "False \<longleftrightarrow> mpicoordy \<lparr>mpicoordx = 1, mpicoordy = 0\<rparr> * iblock ex_grid + 0 = 0 \<and>
      mpicoordx \<lparr>mpicoordx = 1, mpicoordy = 0\<rparr> * jblock ex_grid + 0 * 1 + 0 = 0"
    by (simp_all add: ex_grid_def)
  from solve_fill_ghost_rows [OF h(1,2,3,2,4) refl h(5,6) z(1), of ex_pres_4 "\<lambda>n. 0" ex_work]
    solve_fill_ghost_rows [OF h(1,2,3,2,4) refl h(5,6) z(2), of ex_pres_4 "\<lambda>n. 0" ex_work]
  show ?thesis
    by (simp add: ex_grid_def)
qed


end
